theory Spec2Isabelle
  imports Complex_Main
begin

section \<open>Q-Transformer: index tables and masks\<close>

text \<open>
  The source is \<^verbatim>\<open>q_transformer/q_robotic_transformer.py\<close>. Tensors of integers and
  booleans are nested lists, outermost axis first. The einops patterns are written out as
  the list operations they denote; each definition names the source line it embeds.
\<close>

subsection \<open>Relative position indices of the windowed attention\<close>

text \<open>\<^verbatim>\<open>torch.arange(n)\<close>.\<close>

definition arange :: "nat \<Rightarrow> int list" where
  "arange n = map int [0..<n]"

text \<open>
  \<^verbatim>\<open>torch.stack(torch.meshgrid(xs, ys, indexing = 'ij'))\<close>: two planes, the first
  holding the row coordinate and the second the column coordinate.
\<close>

definition meshgrid_ij :: "int list \<Rightarrow> int list \<Rightarrow> int list list list" where
  "meshgrid_ij xs ys = [map (\<lambda>x. map (\<lambda>y. x) ys) xs, map (\<lambda>x. map (\<lambda>y. y) ys) xs]"

text \<open>\<^verbatim>\<open>rearrange(grid, 'c i j -> (i j) c')\<close>.\<close>

definition rearrange_c_i_j :: "int list list list \<Rightarrow> int list list" where
  "rearrange_c_i_j g =
     concat (map (\<lambda>i. map (\<lambda>j. map (\<lambda>ch. ch ! i ! j) g) [0..<length (hd g ! i)])
                 [0..<length (hd g)])"

text \<open>The variable \<^verbatim>\<open>grid\<close> of \<^verbatim>\<open>Attention.__init__\<close> after the rearrangement.\<close>

definition grid :: "nat \<Rightarrow> int list list" where
  "grid window_size =
     rearrange_c_i_j (meshgrid_ij (arange window_size) (arange window_size))"

text \<open>
  \<^verbatim>\<open>rel_pos = rearrange(grid, 'i ... -> i 1 ...') - rearrange(grid, 'j ... -> 1 j ...')\<close>,
  \<^verbatim>\<open>rel_pos += window_size - 1\<close> and
  \<^verbatim>\<open>rel_pos_indices = (rel_pos * torch.tensor([2 * window_size - 1, 1])).sum(dim = -1)\<close>.
\<close>

definition rel_pos_indices :: "nat \<Rightarrow> int list list" where
  "rel_pos_indices window_size =
     (let g = grid window_size;
          rel_pos = map (\<lambda>gi. map (\<lambda>gj. map2 (-) gi gj) g) g;
          rel_pos = map (map (map (\<lambda>x. x + (int window_size - 1)))) rel_pos
      in map (map (\<lambda>v. sum_list (map2 (*) v [2 * int window_size - 1, 1]))) rel_pos)"

text \<open>
  The reading the specification gives to an entry of the table: the index of a coordinate
  offset \<open>d\<close>, each coordinate shifted by \<open>window_size - 1\<close>, the row coordinate in the
  high digit of a base \<open>2 * window_size - 1\<close> number.
\<close>

definition offset_index :: "nat \<Rightarrow> int list \<Rightarrow> int" where
  "offset_index window_size d =
     (d ! 0 + (int window_size - 1)) * (2 * int window_size - 1)
       + (d ! 1 + (int window_size - 1))"

subsection \<open>The attention mask of \<^verbatim>\<open>encode_state\<close>\<close>

text \<open>\<^verbatim>\<open>torch.ones((r, c), dtype = torch.bool)\<close>.\<close>

definition ones_bool :: "nat \<Rightarrow> nat \<Rightarrow> bool list list" where
  "ones_bool r c = replicate r (replicate c True)"

text \<open>\<^verbatim>\<open>Tensor.triu(k)\<close>: entries on and above the \<open>k\<close>-th diagonal are kept, the rest zeroed.\<close>

definition triu :: "int \<Rightarrow> bool list list \<Rightarrow> bool list list" where
  "triu k m =
     map (\<lambda>i. map (\<lambda>j. if int j - int i \<ge> k then m ! i ! j else False) [0..<length (m ! i)])
         [0..<length m]"

text \<open>The operator \<^verbatim>\<open>~\<close> on a boolean tensor.\<close>

definition tensor_not :: "bool list list \<Rightarrow> bool list list" where
  "tensor_not m = map (map Not) m"

text \<open>\<^verbatim>\<open>repeat(m, 'i j -> (i r1) (j r2)', r1 = r1, r2 = r2)\<close>.\<close>

definition repeat_i_j :: "nat \<Rightarrow> nat \<Rightarrow> 'a list list \<Rightarrow> 'a list list" where
  "repeat_i_j r1 r2 m =
     concat (map (\<lambda>row. replicate r1 (concat (map (replicate r2) row))) m)"

text \<open>The two lines under the comment \<^verbatim>\<open># causal attention mask\<close>.\<close>

definition attn_mask :: "nat \<Rightarrow> nat \<Rightarrow> bool list list" where
  "attn_mask frames num_learned_tokens =
     repeat_i_j num_learned_tokens num_learned_tokens
       (tensor_not (triu 1 (ones_bool frames frames)))"

text \<open>The lower-triangular \<open>frames \<times> frames\<close> matrix, as the specification names it.\<close>

definition lower_triangular :: "nat \<Rightarrow> bool list list" where
  "lower_triangular frames = map (\<lambda>i. map (\<lambda>j. j \<le> i) [0..<frames]) [0..<frames]"


section \<open>Real-valued tensors and the layers of the Q heads\<close>

text \<open>
  A float tensor is a nested list of reals, a vector of the embedding dimension being the
  innermost list. Floating point is read as real arithmetic. Every raise of the source, and
  every shape error of a library call that a claim depends on, is a value of \<open>error\<close>.
\<close>

type_synonym vec = "real list"

datatype error =
    AssertionError string
  | AttributeError string
  | IndexError string
  | RuntimeError string
  | TypeError string
  | EinopsError string
  | UnboundLocalError string

text \<open>\<^verbatim>\<open>Tensor.sigmoid\<close> and \<^verbatim>\<open>nn.Sigmoid\<close>, on one entry.\<close>

definition sigmoid :: "real \<Rightarrow> real" where
  "sigmoid x = 1 / (1 + exp (- x))"

text \<open>\<^verbatim>\<open>nn.SiLU\<close>, on one entry.\<close>

definition SiLU :: "real \<Rightarrow> real" where
  "SiLU x = x * sigmoid x"

text \<open>The contraction of two vectors over the embedding axis (\<^verbatim>\<open>d\<close> in the einsum patterns).\<close>

definition dot :: "vec \<Rightarrow> vec \<Rightarrow> real" where
  "dot x y = sum_list (map2 (*) x y)"

text \<open>
  The mean of an axis, as a number. Over an empty axis torch gives NaN, which the reals do
  not have: the quotient below is then \<open>0\<close>, and every property of values that is
  stated of a mean carries the hypothesis that the axis is not empty.
\<close>

definition reduce_mean :: "vec \<Rightarrow> real" where
  "reduce_mean xs = sum_list xs / real (length xs)"

text \<open>\<^verbatim>\<open>reduce(t, '... a -> ... 1', 'mean')\<close> on one row: the last axis is kept, with size 1.\<close>

definition reduce_mean_keepdim :: "vec \<Rightarrow> vec" where
  "reduce_mean_keepdim xs = [reduce_mean xs]"

text \<open>
  A binary operator of torch on the last axis of two tensors: an axis of size 1 is
  broadcast against the other one.
\<close>

definition broadcast2 :: "(real \<Rightarrow> real \<Rightarrow> real) \<Rightarrow> vec \<Rightarrow> vec \<Rightarrow> vec" where
  "broadcast2 f xs ys =
     (if length xs = 1 then map (f (hd xs)) ys
      else if length ys = 1 then map (\<lambda>x. f x (hd ys)) xs
      else map2 f xs ys)"

text \<open>\<^verbatim>\<open>nn.Linear\<close>: a weight matrix of one row per output feature, and an optional bias.\<close>

record Linear =
  weight :: "real list list"
  bias :: "real list option"

definition Linear_forward :: "Linear \<Rightarrow> vec \<Rightarrow> vec" where
  "Linear_forward l x =
     (let y = map (\<lambda>row. dot row x) (weight l)
      in case bias l of None \<Rightarrow> y | Some b \<Rightarrow> map2 (+) y b)"

text \<open>
  The normalisation of \<^verbatim>\<open>nn.LayerNorm\<close> over the last axis, with the biased variance and
  the default \<open>eps = 1e-5\<close>; \<open>layer_norm\<close> is the module built with
  \<^verbatim>\<open>elementwise_affine = False\<close>.
\<close>

definition layer_norm :: "vec \<Rightarrow> vec" where
  "layer_norm x =
     (let m = reduce_mean x;
          var = reduce_mean (map (\<lambda>a. (a - m)\<^sup>2) x)
      in map (\<lambda>a. (a - m) / sqrt (var + 1 / 100000)) x)"

record LayerNorm =
  ln_weight :: "real list"
  ln_bias :: "real list"

definition LayerNorm_forward :: "LayerNorm \<Rightarrow> vec \<Rightarrow> vec" where
  "LayerNorm_forward nrm x =
     map2 (+) (map2 (*) (layer_norm x) (ln_weight nrm)) (ln_bias nrm)"

text \<open>
  \<^verbatim>\<open>reduce(encoded_state, 'b ... d -> b 1 d', 'mean')\<close> and the reduction
  \<^verbatim>\<open>'b (f n) d -> b d'\<close>, for one batch element: the mean of its token vectors.
  With no token at all (a video of no frames) torch returns a vector of NaN; a nested
  list then holds neither the embedding dimension nor NaN, and the value here is the
  empty vector. The predicate \<open>state_shape\<close> below excludes that input wherever values
  are bounded.
\<close>

definition mean_tokens :: "vec list \<Rightarrow> vec" where
  "mean_tokens ts =
     (case ts of [] \<Rightarrow> []
      | t # _ \<Rightarrow> map (\<lambda>k. reduce_mean (map (\<lambda>u. u ! k) ts)) [0..<length t])"

subsection \<open>DuelingHead\<close>

record DuelingHead =
  stem :: Linear
  dh_to_values :: Linear
  dh_to_advantages :: Linear

text \<open>\<^verbatim>\<open>DuelingHead.forward\<close> on one row of its input; the leading axes are mapped over.\<close>

definition DuelingHead_forward :: "DuelingHead \<Rightarrow> vec \<Rightarrow> vec" where
  "DuelingHead_forward h x0 =
     (let x = map SiLU (Linear_forward (stem h) x0);
          advantages = Linear_forward (dh_to_advantages h) x;
          advantages = broadcast2 (-) advantages (reduce_mean_keepdim advantages);
          values = Linear_forward (dh_to_values h) x;
          q_values = broadcast2 (+) values advantages
      in map sigmoid q_values)"

text \<open>
  The dueling combination in the words of the specification: the sigmoid of the value plus
  the advantage less the mean of the advantages over the action bins.
\<close>

definition dueling_q :: "real \<Rightarrow> vec \<Rightarrow> vec" where
  "dueling_q val advantages =
     map (\<lambda>a. sigmoid (val + (a - reduce_mean advantages))) advantages"

subsection \<open>QHeadSingleAction\<close>

datatype to_q_values =
    Dueling DuelingHead
  | Plain LayerNorm Linear

record QHeadSingleAction =
  sh_action_bins :: nat
  sh_num_learned_tokens :: nat
  sh_to_q_values :: to_q_values

text \<open>
  \<^verbatim>\<open>QHeadSingleAction.forward\<close>. The first layer of either \<^verbatim>\<open>to_q_values\<close> is
  \<^verbatim>\<open>Reduce('b (f n) d -> b d', 'mean', n = num_learned_tokens)\<close>, which einops refuses
  when the token axis is not a multiple of \<open>n\<close>.
\<close>

definition QHeadSingleAction_forward :: "QHeadSingleAction \<Rightarrow> vec list list \<Rightarrow> error + real list list" where
  "QHeadSingleAction_forward h encoded_state =
     (if list_ex (\<lambda>ts. sh_num_learned_tokens h = 0 \<or> length ts mod sh_num_learned_tokens h \<noteq> 0)
           encoded_state
      then Inl (EinopsError ''b (f n) d -> b d'')
      else Inr (map (\<lambda>ts. case sh_to_q_values h of
                    Dueling dh \<Rightarrow> DuelingHead_forward dh (mean_tokens ts)
                  | Plain nrm lin \<Rightarrow>
                      map sigmoid (Linear_forward lin (LayerNorm_forward nrm (mean_tokens ts))))
                encoded_state))"


subsection \<open>Attention and the transformer stack\<close>

text \<open>The numerically plain softmax over the last axis.\<close>

definition softmax :: "vec \<Rightarrow> vec" where
  "softmax xs = map (\<lambda>x. exp x / sum_list (map exp xs)) xs"

text \<open>
  One row of \<^verbatim>\<open>einsum('b h i j, b h j d -> b h i d', attn, v)\<close>: the values weighted
  by the attention of one query.
\<close>

definition weighted_sum :: "vec \<Rightarrow> vec list \<Rightarrow> vec" where
  "weighted_sum attn vs =
     (case vs of [] \<Rightarrow> []
      | v # _ \<Rightarrow> map (\<lambda>c. sum_list (map2 (\<lambda>a u. a * u ! c) attn vs)) [0..<length v])"

text \<open>One query against the keys and values it may see: scaled dot products, softmax, aggregation.\<close>

definition attend_row :: "vec \<Rightarrow> vec list \<Rightarrow> vec list \<Rightarrow> vec" where
  "attend_row q ks vs =
     weighted_sum (softmax (map (\<lambda>k. dot q k / sqrt (real (length q))) ks)) vs"

text \<open>
  Modelled from the spec: the class \<^verbatim>\<open>Attend\<close> of \<^verbatim>\<open>q_transformer/attend.py\<close>, which
  the source imports and which is not among the files at hand. The specification calls it
  standard multi-head attention with memory tokens and optional causal masking, and says
  of the causal mask that it ensures action slot \<open>i\<close> only attends to slots \<open>\<le> i\<close>. The
  keys and values arrive with the memory tokens prepended, so for \<open>n\<close> queries and
  \<open>m + n\<close> keys the query at position \<open>i\<close> sees the \<open>m\<close> memory entries and the positions
  up to \<open>i\<close>; without the causal flag it sees every key. This is one head of one batch
  element, with no padding mask and no attention mask, and dropout at its value 0.
\<close>

definition Attend_forward :: "bool \<Rightarrow> vec list \<Rightarrow> vec list \<Rightarrow> vec list \<Rightarrow> vec list" where
  "Attend_forward causal q k v =
     map (\<lambda>i. let visible = (if causal then length k - length q + Suc i else length k)
              in attend_row (q ! i) (take visible k) (take visible v))
         [0..<length q]"

text \<open>\<^verbatim>\<open>rearrange(t, 'b n (h d) -> b h n d', h = h)\<close> on one token: its \<open>h\<close> slices.\<close>

definition split_heads :: "nat \<Rightarrow> vec \<Rightarrow> vec list" where
  "split_heads h t = map (\<lambda>i. take (length t div h) (drop (i * (length t div h)) t)) [0..<h]"

text \<open>
  \<^verbatim>\<open>TransformerAttention\<close>: the projections have no bias; \<^verbatim>\<open>mem_kv\<close> holds, for keys and
  for values, one list of memory vectors per head, and is \<open>None\<close> when \<^verbatim>\<open>num_mem_kv\<close> is 0.
\<close>

record TransformerAttention =
  heads :: nat
  to_q :: Linear
  to_kv :: Linear
  mem_kv :: "(vec list list \<times> vec list list) option"
  to_out :: Linear
  causal :: bool

text \<open>
  \<^verbatim>\<open>TransformerAttention.forward\<close> for one batch element, as the transformer of the Q
  head calls it: no context, no masks, no conditioning function. The keys and values
  are projected from the input as it came (\<^verbatim>\<open>kv_input\<close> is bound before the norm), the
  queries from the normalised input. \<^verbatim>\<open>chunk(2, dim = -1)\<close> halves the projection.
\<close>

definition TransformerAttention_forward :: "TransformerAttention \<Rightarrow> vec list \<Rightarrow> vec list" where
  "TransformerAttention_forward a x0 =
     (let kv_input = x0;
          x = map layer_norm x0;
          q = map (Linear_forward (to_q a)) x;
          kv = map (Linear_forward (to_kv a)) kv_input;
          k = map (\<lambda>t. take ((length t + 1) div 2) t) kv;
          v = map (\<lambda>t. drop ((length t + 1) div 2) t) kv;
          out = map (\<lambda>hd_idx.
                  let qh = map (\<lambda>t. split_heads (heads a) t ! hd_idx) q;
                      kh = map (\<lambda>t. split_heads (heads a) t ! hd_idx) k;
                      vh = map (\<lambda>t. split_heads (heads a) t ! hd_idx) v;
                      kh = (case mem_kv a of None \<Rightarrow> kh | Some (mk, mv) \<Rightarrow> mk ! hd_idx @ kh);
                      vh = (case mem_kv a of None \<Rightarrow> vh | Some (mk, mv) \<Rightarrow> mv ! hd_idx @ vh)
                  in Attend_forward (causal a) qh kh vh) [0..<heads a];
          out = map (\<lambda>i. concat (map (\<lambda>oh. oh ! i) out)) [0..<length x0]
      in map (Linear_forward (to_out a)) out)"

text \<open>
  \<^verbatim>\<open>FeedForward\<close>: the norm without affine parameters, then
  \<^verbatim>\<open>Linear, GELU, Dropout, Linear, Dropout\<close> on every token. The activation \<^verbatim>\<open>nn.GELU\<close>
  is a field of the record, since its error function is not at hand; dropout is at 0.
\<close>

record FeedForward =
  ff_gelu :: "real \<Rightarrow> real"
  ff_linear1 :: Linear
  ff_linear2 :: Linear

definition FeedForward_forward :: "FeedForward \<Rightarrow> vec list \<Rightarrow> vec list" where
  "FeedForward_forward ff x =
     map (\<lambda>t. Linear_forward (ff_linear2 ff)
                (map (ff_gelu ff) (Linear_forward (ff_linear1 ff) (layer_norm t)))) x"

text \<open>The sum of two token sequences of one shape (\<^verbatim>\<open>attn(x) + x\<close>).\<close>

definition tokens_add :: "vec list \<Rightarrow> vec list \<Rightarrow> vec list" where
  "tokens_add xs ys = map2 (map2 (+)) xs ys"

text \<open>
  \<^verbatim>\<open>Transformer.forward\<close> with \<^verbatim>\<open>cond_fns = None\<close> and \<^verbatim>\<open>attn_mask = None\<close>: the loop over
  the layers, each a pair of an attention and a feed-forward block with residuals.
\<close>

fun Transformer_forward :: "(TransformerAttention \<times> FeedForward) list \<Rightarrow> vec list \<Rightarrow> vec list" where
  "Transformer_forward [] x = x"
| "Transformer_forward ((attn, ff) # layers) x =
     (let x = tokens_add (TransformerAttention_forward attn x) x;
          x = tokens_add (FeedForward_forward ff x) x
      in Transformer_forward layers x)"


subsection \<open>QHeadMultipleActions\<close>

text \<open>
  \<^verbatim>\<open>action_bin_embeddings\<close> has one table per action slot, a table holding one vector
  per bin; \<^verbatim>\<open>to_values\<close> (set only when \<^verbatim>\<open>dueling\<close>) has one vector per action slot.
\<close>

record QHeadMultipleActions =
  mh_num_actions :: nat
  mh_action_bins :: nat
  action_bin_embeddings :: "vec list list"
  transformer :: "(TransformerAttention \<times> FeedForward) list"
  final_norm :: LayerNorm
  dueling :: bool
  mh_to_values :: "vec list"

text \<open>
  The two lines \<^verbatim>\<open>embed = self.transformer(...)\<close> and \<^verbatim>\<open>embed = self.final_norm(embed)\<close>,
  which \<^verbatim>\<open>forward\<close> and \<^verbatim>\<open>get_optimal_actions\<close> share, for one batch element.
\<close>

definition head_embed :: "QHeadMultipleActions \<Rightarrow> vec list \<Rightarrow> vec list" where
  "head_embed h tokens =
     map (LayerNorm_forward (final_norm h)) (Transformer_forward (transformer h) tokens)"

text \<open>\<^verbatim>\<open>einsum('b n d, n a d -> b n a', embed, tables)\<close>.\<close>

definition einsum_bnd_nad :: "vec list list \<Rightarrow> vec list list \<Rightarrow> real list list list" where
  "einsum_bnd_nad emb tables =
     map (\<lambda>e. map2 (\<lambda>en tbl. map (\<lambda>bin. dot en bin) tbl) e tables) emb"

text \<open>\<^verbatim>\<open>einsum('b n d, n d -> b n', embed, vs)\<close>.\<close>

definition einsum_bnd_nd :: "vec list list \<Rightarrow> vec list \<Rightarrow> real list list" where
  "einsum_bnd_nd emb vs = map (\<lambda>e. map2 dot e vs) emb"

text \<open>
  \<^verbatim>\<open>QHeadMultipleActions.get_q_values\<close>. The einsum refuses an \<^verbatim>\<open>embed\<close> with more slots
  than there are tables.
\<close>

definition get_q_values :: "QHeadMultipleActions \<Rightarrow> vec list list \<Rightarrow> error + real list list list" where
  "get_q_values h emb =
     (let num_actions = (case emb of [] \<Rightarrow> 0 | e # _ \<Rightarrow> length e);
          tables = take num_actions (action_bin_embeddings h)
      in if length tables \<noteq> num_actions then Inl (RuntimeError ''einsum: size of n'')
         else if dueling h then
           (let advantages = einsum_bnd_nad emb tables;
                values = einsum_bnd_nd emb (take num_actions (mh_to_values h));
                values = map (map (\<lambda>v. [v])) values;
                q_values = map2 (map2 (\<lambda>v a.
                    broadcast2 (+) v (broadcast2 (-) a (reduce_mean_keepdim a)))) values advantages
            in Inr (map (map (map sigmoid)) q_values))
         else Inr (map (map (map sigmoid)) (einsum_bnd_nad emb tables)))"

text \<open>
  The variable \<^verbatim>\<open>tokens\<close> of \<^verbatim>\<open>QHeadMultipleActions.forward\<close> at the call of the
  transformer. \<^verbatim>\<open>gather\<close> refuses an index tensor wider than its input along a
  non-gathered axis, and an index outside the bins; \<^verbatim>\<open>cat\<close> refuses two batch sizes.
\<close>

definition forward_tokens ::
  "QHeadMultipleActions \<Rightarrow> vec list list \<Rightarrow> nat list list option \<Rightarrow> error + vec list list" where
  "forward_tokens h sos_token actions =
     (case actions of
        None \<Rightarrow> Inr sos_token
      | Some acts \<Rightarrow>
          (let num_actions = (case acts of [] \<Rightarrow> 0 | r # _ \<Rightarrow> length r);
               action_embeddings = take num_actions (action_bin_embeddings h)
           in if length action_embeddings < num_actions
              then Inl (RuntimeError ''gather: index wider than input'')
              else if list_ex (\<lambda>row. list_ex (\<lambda>(tbl, a). length tbl \<le> a)
                                   (zip action_embeddings row)) acts
              then Inl (RuntimeError ''gather: index out of bounds'')
              else if length acts \<noteq> length sos_token
              then Inl (RuntimeError ''cat: sizes of tensors must match'')
              else (let bin_embeddings =
                          map (\<lambda>row. map2 (\<lambda>tbl a. tbl ! a) action_embeddings row) acts;
                        tokens = map2 (@) sos_token bin_embeddings
                    in Inr (map (take (mh_num_actions h)) tokens))))"

text \<open>\<^verbatim>\<open>QHeadMultipleActions.forward\<close>.\<close>

definition QHeadMultipleActions_forward ::
  "QHeadMultipleActions \<Rightarrow> vec list list \<Rightarrow> nat list list option \<Rightarrow> error + real list list list" where
  "QHeadMultipleActions_forward h encoded_state actions =
     (let sos_token = map (\<lambda>ts. [mean_tokens ts]) encoded_state
      in case forward_tokens h sos_token actions of
           Inl e \<Rightarrow> Inl e
         | Inr tokens \<Rightarrow> get_q_values h (map (head_embed h) tokens))"

text \<open>\<^verbatim>\<open>Tensor.argmax\<close> on one row: the first index at which the maximum is attained.\<close>

definition argmax :: "real list \<Rightarrow> nat" where
  "argmax xs = length (takeWhile (\<lambda>x. x \<noteq> fold max (tl xs) (hd xs)) xs)"

text \<open>
  One pass of the loop of \<^verbatim>\<open>get_optimal_actions\<close>: it returns the new \<^verbatim>\<open>head_inputs\<close>,
  the \<^verbatim>\<open>selected_action_bins\<close> and the \<^verbatim>\<open>embed\<close> of this pass.
\<close>

definition decode_step ::
  "QHeadMultipleActions \<Rightarrow> nat \<Rightarrow> vec list list
     \<Rightarrow> error + (vec list list \<times> nat list \<times> vec list list)" where
  "decode_step h action_idx head_inputs =
     (let emb = map (head_embed h) head_inputs
      in if list_ex (\<lambda>e. length e \<le> action_idx) emb
         then Inl (IndexError ''embed[:, action_idx]'')
         else if length (action_bin_embeddings h) \<le> action_idx
         then Inl (IndexError ''action_bin_embeddings[action_idx]'')
         else (let last_embed = map (\<lambda>e. e ! action_idx) emb;
                   bin_embeddings = action_bin_embeddings h ! action_idx;
                   q_values = map (\<lambda>le. map (\<lambda>bin. dot le bin) bin_embeddings) last_embed
               in if bin_embeddings = [] then Inl (IndexError ''argmax of an empty axis'')
                  else (let selected_action_bins = map argmax q_values;
                            next_action_embed = map (\<lambda>s. bin_embeddings ! s) selected_action_bins;
                            head_inputs = map2 (\<lambda>hi ne. hi @ [ne]) head_inputs next_action_embed
                        in Inr (head_inputs, selected_action_bins, emb))))"

text \<open>
  The loop \<^verbatim>\<open>for action_idx in range(self.num_actions)\<close> over its remaining indices, with
  the variables it updates: \<^verbatim>\<open>head_inputs\<close>, \<^verbatim>\<open>action_bins\<close> and \<^verbatim>\<open>embed\<close> (unbound
  before the first pass).
\<close>

fun decode_loop ::
  "QHeadMultipleActions \<Rightarrow> nat list \<Rightarrow> vec list list \<Rightarrow> nat list list \<Rightarrow> vec list list option
     \<Rightarrow> error + (vec list list \<times> nat list list \<times> vec list list option)" where
  "decode_loop h [] head_inputs action_bins emb = Inr (head_inputs, action_bins, emb)"
| "decode_loop h (action_idx # rest) head_inputs action_bins emb =
     (case decode_step h action_idx head_inputs of
        Inl e \<Rightarrow> Inl e
      | Inr (head_inputs', selected_action_bins, embed') \<Rightarrow>
          decode_loop h rest head_inputs' (action_bins @ [selected_action_bins]) (Some embed'))"

text \<open>\<^verbatim>\<open>torch.stack(action_bins, dim = -1)\<close> of vectors over a batch of the given size.\<close>

definition stack_last :: "nat \<Rightarrow> nat list list \<Rightarrow> nat list list" where
  "stack_last batch action_bins = map (\<lambda>b. map (\<lambda>sel. sel ! b) action_bins) [0..<batch]"

text \<open>
  \<^verbatim>\<open>QHeadMultipleActions.get_optimal_actions\<close>: the action bins, and the Q-values when
  \<^verbatim>\<open>return_q_values\<close> is set. \<^verbatim>\<open>torch.stack\<close> refuses an empty list.
\<close>

definition get_optimal_actions ::
  "QHeadMultipleActions \<Rightarrow> vec list list \<Rightarrow> bool
     \<Rightarrow> error + (nat list list \<times> real list list list option)" where
  "get_optimal_actions h encoded_state return_q_values =
     (let sos_token = map (\<lambda>ts. [mean_tokens ts]) encoded_state;
          head_inputs = sos_token
      in case decode_loop h [0..<mh_num_actions h] head_inputs [] None of
           Inl e \<Rightarrow> Inl e
         | Inr (head_inputs', action_bins, emb) \<Rightarrow>
             if action_bins = [] then Inl (RuntimeError ''stack expects a non-empty TensorList'')
             else (let action_bins = stack_last (length encoded_state) action_bins
                   in if return_q_values
                      then (case emb of
                              None \<Rightarrow> Inl (UnboundLocalError ''embed'')
                            | Some emb \<Rightarrow>
                                (case get_q_values h emb of
                                   Inl e \<Rightarrow> Inl e
                                 | Inr all_q_values \<Rightarrow> Inr (action_bins, Some all_q_values)))
                      else Inr (action_bins, None)))"


subsection \<open>Attribute lookup and the random actions\<close>

text \<open>
  What Python finds when an attribute of a Q head is read: the names bound on the
  instance by \<^verbatim>\<open>__init__\<close>, the names bound in the class body, and the names that
  \<^verbatim>\<open>torch.nn.Module\<close> provides. A name found nowhere raises \<^verbatim>\<open>AttributeError\<close>. Only
  the presence of an attribute matters here, so a successful lookup returns no value.
\<close>

definition Module_names :: "string list" where
  "Module_names =
     [''training'', ''forward'', ''parameters'', ''named_parameters'', ''buffers'',
      ''named_buffers'', ''children'', ''modules'', ''named_modules'', ''state_dict'',
      ''load_state_dict'', ''register_buffer'', ''register_parameter'', ''add_module'',
      ''apply'', ''to'', ''cpu'', ''cuda'', ''float'', ''double'', ''half'', ''type'',
      ''train'', ''eval'', ''requires_grad_'', ''zero_grad'', ''extra_repr'']"

definition QHeadSingleAction_names :: "string list" where
  "QHeadSingleAction_names =
     [''action_bins'', ''to_q_values'',
      ''get_random_actions'', ''get_optimal_actions'', ''forward'']"

definition QHeadMultipleActions_names :: "bool \<Rightarrow> string list" where
  "QHeadMultipleActions_names with_dueling =
     [''num_actions'', ''action_bins'', ''action_bin_embeddings'', ''transformer'',
      ''final_norm'', ''dueling'']
     @ (if with_dueling then [''to_values''] else [])
     @ [''device'', ''get_q_values'', ''get_random_actions'', ''get_optimal_actions'',
        ''forward'']"

definition getattr_of :: "string list \<Rightarrow> string \<Rightarrow> error + unit" where
  "getattr_of names name =
     (if name \<in> set names \<or> name \<in> set Module_names then Inr ()
      else Inl (AttributeError name))"

text \<open>
  The property \<^verbatim>\<open>QHeadMultipleActions.device\<close>, which reads
  \<^verbatim>\<open>self.action_embeddings.device\<close>. When the getter of a property raises
  \<^verbatim>\<open>AttributeError\<close>, Python falls back to \<^verbatim>\<open>Module.__getattr__\<close> with the name of the
  property, which looks among the parameters, buffers and submodules and raises
  \<^verbatim>\<open>AttributeError\<close> for that name.
\<close>

definition QHeadMultipleActions_device :: "QHeadMultipleActions \<Rightarrow> error + unit" where
  "QHeadMultipleActions_device h =
     (case getattr_of (QHeadMultipleActions_names (dueling h)) ''action_embeddings'' of
        Inr dev \<Rightarrow> Inr dev
      | Inl e \<Rightarrow> Inl (AttributeError ''device''))"

text \<open>
  \<^verbatim>\<open>torch.randint(0, high, shape)\<close>, the random draws being the values of \<open>rng\<close> at
  the flat positions of the result; it refuses \<open>high \<le> 0\<close>.
\<close>

definition randint :: "nat \<Rightarrow> nat \<Rightarrow> (nat \<Rightarrow> nat) \<Rightarrow> error + nat list" where
  "randint high n rng =
     (if high = 0 then Inl (RuntimeError ''random_ expects from to be less than to'')
      else Inr (map (\<lambda>i. rng i mod high) [0..<n]))"

text \<open>
  \<^verbatim>\<open>QHeadSingleAction.get_random_actions\<close>: the argument \<^verbatim>\<open>self.device\<close> is evaluated
  before \<^verbatim>\<open>torch.randint\<close> is entered.
\<close>

definition QHeadSingleAction_get_random_actions ::
  "QHeadSingleAction \<Rightarrow> nat \<Rightarrow> (nat \<Rightarrow> nat) \<Rightarrow> error + nat list" where
  "QHeadSingleAction_get_random_actions h batch_size rng =
     (case getattr_of QHeadSingleAction_names ''device'' of
        Inl e \<Rightarrow> Inl e
      | Inr dev \<Rightarrow> randint (sh_action_bins h) batch_size rng)"

text \<open>\<^verbatim>\<open>QHeadMultipleActions.get_random_actions\<close>, of shape batch by \<^verbatim>\<open>num_actions\<close>.\<close>

definition QHeadMultipleActions_get_random_actions ::
  "QHeadMultipleActions \<Rightarrow> nat \<Rightarrow> (nat \<Rightarrow> nat) \<Rightarrow> error + nat list list" where
  "QHeadMultipleActions_get_random_actions h batch_size rng =
     (case QHeadMultipleActions_device h of
        Inl e \<Rightarrow> Inl e
      | Inr dev \<Rightarrow>
          (case randint (mh_action_bins h) (batch_size * mh_num_actions h) rng of
             Inl e \<Rightarrow> Inl e
           | Inr flat \<Rightarrow>
               Inr (map (\<lambda>b. take (mh_num_actions h) (drop (b * mh_num_actions h) flat))
                        [0..<batch_size])))"

text \<open>
  \<^verbatim>\<open>QHeadSingleAction.get_optimal_actions\<close>: \<^verbatim>\<open>q_values.max(dim = -1)\<close> gives the
  maximum and its index; it refuses an empty axis.
\<close>

definition QHeadSingleAction_get_optimal_actions ::
  "QHeadSingleAction \<Rightarrow> vec list list \<Rightarrow> bool \<Rightarrow> error + (nat list \<times> real list option)" where
  "QHeadSingleAction_get_optimal_actions h encoded_state return_q_values =
     (case QHeadSingleAction_forward h encoded_state of
        Inl e \<Rightarrow> Inl e
      | Inr q_values \<Rightarrow>
          if list_ex (\<lambda>row. row = []) q_values then Inl (IndexError ''max of an empty axis'')
          else (let max_q = map (\<lambda>row. row ! argmax row) q_values;
                    action_indices = map argmax q_values
                in if \<not> return_q_values then Inr (action_indices, None)
                   else Inr (action_indices, Some max_q)))"

subsection \<open>QRoboticTransformer\<close>

datatype q_head =
    SingleAction QHeadSingleAction
  | MultipleActions QHeadMultipleActions

text \<open>
  The fields of the model that the Q head paths read. \<^verbatim>\<open>__init__\<close> asserts
  \<^verbatim>\<open>num_actions >= 1\<close>, sets \<^verbatim>\<open>is_single_action = (num_actions == 1)\<close> and builds a
  \<^verbatim>\<open>QHeadSingleAction\<close> when it holds and a \<^verbatim>\<open>QHeadMultipleActions\<close> otherwise.
\<close>

record QRoboticTransformer =
  num_actions :: nat
  is_single_action :: bool
  action_bins :: nat
  q_head :: q_head

text \<open>A Q-value tensor of two or of three axes, and the result of an action query.\<close>

datatype q_tensor =
    Rank2 "real list list"
  | Rank3 "real list list list"

datatype actions_result =
    Actions1 "nat list" "real list option"
  | Actions2 "nat list list" "real list list list option"

text \<open>The shape of a Q-value tensor (the inner sizes are those of its first entries).\<close>

fun shape :: "q_tensor \<Rightarrow> nat list" where
  "shape (Rank2 q) = [length q, length (hd q)]"
| "shape (Rank3 q) = [length q, length (hd q), length (hd (hd q))]"

text \<open>
  The body of \<^verbatim>\<open>QRoboticTransformer.forward\<close>, which its decorator (of another package)
  calls. The call of \<^verbatim>\<open>encode_state\<close> comes first; its outcome
  is the argument \<open>encoded\<close>, an error or the attended tokens of each batch element. A
  \<^verbatim>\<open>QHeadSingleAction\<close> has no parameter \<^verbatim>\<open>actions\<close>.
\<close>

definition QRoboticTransformer_forward ::
  "QRoboticTransformer \<Rightarrow> error + vec list list \<Rightarrow> nat list list option \<Rightarrow> error + q_tensor" where
  "QRoboticTransformer_forward m encoded actions =
     (case encoded of
        Inl e \<Rightarrow> Inl e
      | Inr encoded_state \<Rightarrow>
          if is_single_action m then
            (if actions \<noteq> None
             then Inl (AssertionError
                    ''actions should not be passed in for single action robotic transformer'')
             else (case q_head m of
                     SingleAction h \<Rightarrow>
                       (case QHeadSingleAction_forward h encoded_state of
                          Inl e \<Rightarrow> Inl e | Inr q \<Rightarrow> Inr (Rank2 q))
                   | MultipleActions h \<Rightarrow>
                       (case QHeadMultipleActions_forward h encoded_state None of
                          Inl e \<Rightarrow> Inl e | Inr q \<Rightarrow> Inr (Rank3 q))))
          else (case q_head m of
                  SingleAction h \<Rightarrow>
                    Inl (TypeError ''forward() got an unexpected keyword argument actions'')
                | MultipleActions h \<Rightarrow>
                    (case QHeadMultipleActions_forward h encoded_state actions of
                       Inl e \<Rightarrow> Inl e | Inr q \<Rightarrow> Inr (Rank3 q))))"

text \<open>\<^verbatim>\<open>QRoboticTransformer.get_random_actions\<close>.\<close>

definition QRoboticTransformer_get_random_actions ::
  "QRoboticTransformer \<Rightarrow> nat \<Rightarrow> (nat \<Rightarrow> nat) \<Rightarrow> error + actions_result" where
  "QRoboticTransformer_get_random_actions m batch_size rng =
     (case q_head m of
        SingleAction h \<Rightarrow>
          (case QHeadSingleAction_get_random_actions h batch_size rng of
             Inl e \<Rightarrow> Inl e | Inr a \<Rightarrow> Inr (Actions1 a None))
      | MultipleActions h \<Rightarrow>
          (case QHeadMultipleActions_get_random_actions h batch_size rng of
             Inl e \<Rightarrow> Inl e | Inr a \<Rightarrow> Inr (Actions2 a None)))"

text \<open>\<^verbatim>\<open>QRoboticTransformer.get_optimal_actions\<close>, on the outcome of \<^verbatim>\<open>encode_state\<close>.\<close>

definition QRoboticTransformer_get_optimal_actions ::
  "QRoboticTransformer \<Rightarrow> error + vec list list \<Rightarrow> bool \<Rightarrow> error + actions_result" where
  "QRoboticTransformer_get_optimal_actions m encoded return_q_values =
     (case encoded of
        Inl e \<Rightarrow> Inl e
      | Inr encoded_state \<Rightarrow>
          (case q_head m of
             SingleAction h \<Rightarrow>
               (case QHeadSingleAction_get_optimal_actions h encoded_state return_q_values of
                  Inl e \<Rightarrow> Inl e | Inr (a, q) \<Rightarrow> Inr (Actions1 a q))
           | MultipleActions h \<Rightarrow>
               (case get_optimal_actions h encoded_state return_q_values of
                  Inl e \<Rightarrow> Inl e | Inr (a, q) \<Rightarrow> Inr (Actions2 a q))))"

text \<open>
  \<^verbatim>\<open>QRoboticTransformer.get_actions\<close>: \<open>batch_size\<close> is \<^verbatim>\<open>video.shape[0]\<close>, \<open>sample\<close> the
  value that \<^verbatim>\<open>random()\<close> returns, \<open>encoded\<close> the outcome of \<^verbatim>\<open>encode_state\<close> on the video
  and the remaining arguments.
\<close>

definition get_actions ::
  "QRoboticTransformer \<Rightarrow> nat \<Rightarrow> error + vec list list \<Rightarrow> real \<Rightarrow> real \<Rightarrow> (nat \<Rightarrow> nat) \<Rightarrow> bool
     \<Rightarrow> error + actions_result" where
  "get_actions m batch_size encoded prob_random_action sample rng return_q_values =
     (if \<not> (0 \<le> prob_random_action \<and> prob_random_action \<le> 1)
      then Inl (AssertionError '''')
      else if sample < prob_random_action
      then QRoboticTransformer_get_random_actions m batch_size rng
      else QRoboticTransformer_get_optimal_actions m encoded return_q_values)"


subsection \<open>TokenLearner\<close>

text \<open>A feature map of one frame: channels by height by width.\<close>

type_synonym feature_map = "real list list list"

text \<open>The first error of a list of outcomes, or all the results.\<close>

fun all_results :: "(error + 'a) list \<Rightarrow> error + 'a list" where
  "all_results [] = Inr []"
| "all_results (r # rs) =
     (case r of
        Inl e \<Rightarrow> Inl e
      | Inr y \<Rightarrow> (case all_results rs of Inl e \<Rightarrow> Inl e | Inr ys \<Rightarrow> Inr (y # ys)))"

text \<open>
  \<^verbatim>\<open>nn.Conv2d(in_channels, out_channels, 1, groups = groups)\<close>: the weight has one row
  per output channel, of \<^verbatim>\<open>in_channels / groups\<close> entries, and output channel \<open>oc\<close>
  reads the input channels of its group. Torch refuses an input of another number of
  channels, and an input of no height or no width.
\<close>

record Conv2d =
  cv_weight :: "real list list"
  cv_bias :: "real list"
  cv_groups :: nat

definition Conv2d_forward :: "Conv2d \<Rightarrow> feature_map \<Rightarrow> error + feature_map" where
  "Conv2d_forward cv x =
     (let out_channels = length (cv_weight cv);
          in_per_group = (case cv_weight cv of [] \<Rightarrow> 0 | r # _ \<Rightarrow> length r);
          out_per_group = out_channels div cv_groups cv;
          h = (case x of [] \<Rightarrow> 0 | p # _ \<Rightarrow> length p);
          w = (case x of [] \<Rightarrow> 0 | p # _ \<Rightarrow> (case p of [] \<Rightarrow> 0 | r # _ \<Rightarrow> length r))
      in if length x \<noteq> in_per_group * cv_groups cv
         then Inl (RuntimeError ''conv2d: number of input channels'')
         else if h = 0 \<or> w = 0
         then Inl (RuntimeError ''conv2d: kernel size greater than input size'')
         else Inr (map (\<lambda>oc. map (\<lambda>i. map (\<lambda>j.
                      cv_bias cv ! oc
                        + sum_list (map (\<lambda>k. cv_weight cv ! oc ! k
                              * x ! ((oc div out_per_group) * in_per_group + k) ! i ! j)
                            [0..<in_per_group]))
                    [0..<w]) [0..<h]) [0..<out_channels]))"

text \<open>
  The module: \<^verbatim>\<open>num_output_tokens\<close> and the three layers of \<^verbatim>\<open>net\<close>, the activation
  \<^verbatim>\<open>nn.GELU\<close> being a field as in \<open>FeedForward\<close>.
\<close>

record TokenLearner =
  num_output_tokens :: nat
  tl_conv1 :: Conv2d
  tl_gelu :: "real \<Rightarrow> real"
  tl_conv2 :: Conv2d

text \<open>\<^verbatim>\<open>reduce(t, '... h w -> ...', 'mean')\<close> on one plane.\<close>

definition mean_hw :: "real list list \<Rightarrow> real" where
  "mean_hw plane = sum_list (concat plane) / real (length (concat plane))"

text \<open>
  The body of \<^verbatim>\<open>TokenLearner.forward\<close> between packing and unpacking, on one feature
  map of the packed batch: \<^verbatim>\<open>repeat\<close> lays \<open>g\<close> copies of the channels side by side, the
  net turns them into the attention maps, \<^verbatim>\<open>rearrange\<close> reads channel \<open>ch\<close> of copy
  \<open>gi\<close> at index \<open>gi * c + ch\<close>, and the product with the attention maps (whose axis of
  size 1 is broadcast over the channels) is averaged over height and width. The product
  follows the broadcasting rule of torch on the axis of the tokens: equal sizes, or one
  of them 1.
\<close>

definition TokenLearner_frame :: "TokenLearner \<Rightarrow> feature_map \<Rightarrow> error + real list list" where
  "TokenLearner_frame lrn x0 =
     (let g = num_output_tokens lrn;
          x = concat (replicate g x0)
      in case Conv2d_forward (tl_conv1 lrn) x of
           Inl e \<Rightarrow> Inl e
         | Inr y \<Rightarrow>
             (case Conv2d_forward (tl_conv2 lrn) (map (map (map (tl_gelu lrn))) y) of
                Inl e \<Rightarrow> Inl e
              | Inr attn \<Rightarrow>
                  (let c = length x div g;
                       tokens = (if length attn = g \<or> length attn = 1 then g
                                 else length attn)
                   in if length attn \<noteq> g \<and> length attn \<noteq> 1 \<and> g \<noteq> 1
                      then Inl (RuntimeError ''size of tensor a must match size of tensor b'')
                      else Inr (map (\<lambda>ch. map (\<lambda>gi.
                                  mean_hw (map2 (map2 (*))
                                    (x ! ((if g = 1 then 0 else gi) * c + ch))
                                    (attn ! (if length attn = 1 then 0 else gi))))
                                [0..<tokens]) [0..<c]))))"

text \<open>
  \<^verbatim>\<open>pack_one(x, '* c h w')\<close> and \<^verbatim>\<open>unpack_one(x, ps, '* c n')\<close> for the input of
  \<^verbatim>\<open>encode_state\<close>, whose leading axes are batch and frames: the packed batch is the
  concatenation of the frames of all batch elements, and unpacking cuts it back into
  \<open>batch\<close> runs of \<open>frames\<close> entries.
\<close>

definition pack_one :: "'a list list \<Rightarrow> 'a list \<times> (nat \<times> nat)" where
  "pack_one x = (concat x, (length x, (case x of [] \<Rightarrow> 0 | fs # _ \<Rightarrow> length fs)))"

definition unpack_one :: "'a list \<Rightarrow> nat \<times> nat \<Rightarrow> 'a list list" where
  "unpack_one x ps = map (\<lambda>b. take (snd ps) (drop (b * snd ps) x)) [0..<fst ps]"

text \<open>\<^verbatim>\<open>TokenLearner.forward\<close> on a tensor of batch by frames by channels by height by width.\<close>

definition TokenLearner_forward ::
  "TokenLearner \<Rightarrow> feature_map list list \<Rightarrow> error + real list list list list" where
  "TokenLearner_forward lrn x0 =
     (case pack_one x0 of
        (x, ps) \<Rightarrow>
          (case all_results (map (TokenLearner_frame lrn) x) of
             Inl e \<Rightarrow> Inl e
           | Inr y \<Rightarrow> Inr (unpack_one y ps)))"

text \<open>
  The shapes that \<^verbatim>\<open>TokenLearner.__init__\<close> gives the two convolutions for the dimension
  \<open>edim\<close>: both have \<^verbatim>\<open>num_output_tokens\<close> groups, the first reads \<open>edim\<close> channels per
  group, the second writes \<^verbatim>\<open>num_output_tokens\<close> channels.
\<close>

definition conv_shape :: "Conv2d \<Rightarrow> nat \<Rightarrow> nat \<Rightarrow> nat \<Rightarrow> bool" where
  "conv_shape cv groups in_per_group out_channels =
     (cv_groups cv = groups \<and> length (cv_weight cv) = out_channels
      \<and> list_all (\<lambda>row. length row = in_per_group) (cv_weight cv)
      \<and> length (cv_bias cv) = out_channels)"

definition token_learner_shapes :: "nat \<Rightarrow> TokenLearner \<Rightarrow> bool" where
  "token_learner_shapes edim lrn =
     (let g = num_output_tokens lrn;
          inner_dim = length (cv_weight (tl_conv1 lrn))
      in 0 < g \<and> 0 < edim \<and> 0 < inner_dim \<and> inner_dim mod g = 0
         \<and> conv_shape (tl_conv1 lrn) g edim inner_dim
         \<and> conv_shape (tl_conv2 lrn) g (inner_dim div g) g)"

text \<open>A tensor of batch by frames by \<open>c\<close> by \<open>h\<close> by \<open>w\<close>.\<close>

definition video_features :: "nat \<Rightarrow> nat \<Rightarrow> nat \<Rightarrow> nat \<Rightarrow> feature_map list list \<Rightarrow> bool" where
  "video_features frames c h w x =
     list_all (\<lambda>fs. length fs = frames
                 \<and> list_all (\<lambda>fm. length fm = c
                       \<and> list_all (\<lambda>plane. length plane = h
                             \<and> list_all (\<lambda>row. length row = w) plane) fm) fs) x"

text \<open>A tensor of batch by frames by \<open>c\<close> by \<open>n\<close>.\<close>

definition learned_tokens_shape ::
  "nat \<Rightarrow> nat \<Rightarrow> nat \<Rightarrow> nat \<Rightarrow> real list list list list \<Rightarrow> bool" where
  "learned_tokens_shape batch frames c n y =
     (length y = batch
      \<and> list_all (\<lambda>fs. length fs = frames
                 \<and> list_all (\<lambda>t. length t = c \<and> list_all (\<lambda>row. length row = n) t) fs) y)"

text \<open>A token learner of two output tokens for one channel, and a video of two frames.\<close>

definition example_token_learner :: TokenLearner where
  "example_token_learner =
     \<lparr>num_output_tokens = 2,
      tl_conv1 = \<lparr>cv_weight = [[1], [2], [3], [4]], cv_bias = [0, 0, 0, 0], cv_groups = 2\<rparr>,
      tl_gelu = (\<lambda>x. x * sigmoid x),
      tl_conv2 = \<lparr>cv_weight = [[1, 1], [1, 0]], cv_bias = [0, 1], cv_groups = 2\<rparr>\<rparr>"

definition example_features :: "feature_map list list" where
  "example_features = [[[[[1, 2, 3]]], [[[4, 5, 6]]]]]"


subsection \<open>Shapes fixed by the constructors\<close>

text \<open>
  \<^verbatim>\<open>QHeadMultipleActions.__init__\<close> allocates \<^verbatim>\<open>action_bin_embeddings\<close> with
  \<^verbatim>\<open>num_actions\<close> tables of \<^verbatim>\<open>action_bins\<close> vectors, builds its transformer with
  \<^verbatim>\<open>causal = True\<close>, and allocates one \<^verbatim>\<open>to_values\<close> vector per action when dueling.
  Training changes the entries and none of the shapes.
\<close>

definition multi_head_shapes :: "QHeadMultipleActions \<Rightarrow> bool" where
  "multi_head_shapes h =
     (length (action_bin_embeddings h) = mh_num_actions h
      \<and> list_all (\<lambda>tbl. length tbl = mh_action_bins h) (action_bin_embeddings h)
      \<and> list_all (\<lambda>(attn, ff). causal attn) (transformer h)
      \<and> (if dueling h then length (mh_to_values h) = mh_num_actions h else True))"

text \<open>
  \<^verbatim>\<open>QHeadSingleAction.__init__\<close>: the last linear layer has \<^verbatim>\<open>action_bins\<close> outputs, and
  the value stream of a dueling head has one.
\<close>

definition linear_outputs :: "Linear \<Rightarrow> nat \<Rightarrow> bool" where
  "linear_outputs l n =
     (length (weight l) = n \<and> (case bias l of None \<Rightarrow> True | Some b \<Rightarrow> length b = n))"

definition single_head_shapes :: "QHeadSingleAction \<Rightarrow> bool" where
  "single_head_shapes h =
     (0 < sh_num_learned_tokens h
      \<and> (case sh_to_q_values h of
            Dueling dh \<Rightarrow> linear_outputs (dh_to_values dh) 1
                          \<and> linear_outputs (dh_to_advantages dh) (sh_action_bins h)
          | Plain nrm lin \<Rightarrow> linear_outputs lin (sh_action_bins h)))"

text \<open>
  What \<^verbatim>\<open>QRoboticTransformer.__init__\<close> establishes between the fields of the model and
  its Q head: the assertion \<^verbatim>\<open>num_actions >= 1\<close>, the flag, the kind of head, and the
  \<^verbatim>\<open>action_bins\<close> handed to the head. The \<^verbatim>\<open>num_actions\<close> of a multi-action head is
  not among them: the call that builds the head passes \<^verbatim>\<open>action_bins\<close> and
  \<^verbatim>\<open>dueling\<close>, so the head keeps its default of 8 or the entry of
  \<^verbatim>\<open>q_head_attn_kwargs\<close>.
\<close>

definition built_by_init :: "QRoboticTransformer \<Rightarrow> bool" where
  "built_by_init m =
     (1 \<le> num_actions m
      \<and> is_single_action m = (num_actions m = 1)
      \<and> (case q_head m of
            SingleAction sh \<Rightarrow>
              is_single_action m \<and> sh_action_bins sh = action_bins m \<and> single_head_shapes sh
          | MultipleActions h \<Rightarrow>
              \<not> is_single_action m \<and> mh_action_bins h = action_bins m
              \<and> multi_head_shapes h))"

text \<open>
  The embedding dimension. Torch refuses a contraction of two axes of different sizes,
  where \<open>dot\<close> would cut the longer vector: the predicates below say that the
  parameters of a head are of the shapes its constructor allocates for the dimension
  \<open>edim\<close>, and that the encoded state is a tensor of batch by tokens by \<open>edim\<close> with
  at least one token (with none, the pooled state token would be NaN).
\<close>

definition linear_shape :: "Linear \<Rightarrow> nat \<Rightarrow> nat \<Rightarrow> bool" where
  "linear_shape l n_in n_out =
     (length (weight l) = n_out \<and> list_all (\<lambda>row. length row = n_in) (weight l)
      \<and> (case bias l of None \<Rightarrow> True | Some b \<Rightarrow> length b = n_out))"

definition attention_shape :: "nat \<Rightarrow> TransformerAttention \<Rightarrow> bool" where
  "attention_shape edim a =
     (let dim_head = length (weight (to_q a)) div heads a
      in 0 < heads a \<and> 0 < dim_head
         \<and> linear_shape (to_q a) edim (heads a * dim_head)
         \<and> linear_shape (to_kv a) edim (2 * (heads a * dim_head))
         \<and> linear_shape (to_out a) (heads a * dim_head) edim
         \<and> (case mem_kv a of
               None \<Rightarrow> True
             | Some (mk, mv) \<Rightarrow>
                 length mk = heads a \<and> length mv = heads a
                 \<and> list_all (\<lambda>mem. length mem = length (hd mk)
                                   \<and> list_all (\<lambda>v. length v = dim_head) mem) (mk @ mv)))"

definition feed_forward_shape :: "nat \<Rightarrow> FeedForward \<Rightarrow> bool" where
  "feed_forward_shape edim ff =
     (linear_shape (ff_linear1 ff) edim (length (weight (ff_linear1 ff)))
      \<and> linear_shape (ff_linear2 ff) (length (weight (ff_linear1 ff))) edim)"

definition multi_head_dims :: "nat \<Rightarrow> QHeadMultipleActions \<Rightarrow> bool" where
  "multi_head_dims edim h =
     (0 < edim
      \<and> list_all (list_all (\<lambda>v. length v = edim)) (action_bin_embeddings h)
      \<and> list_all (\<lambda>(attn, ff). attention_shape edim attn \<and> feed_forward_shape edim ff)
            (transformer h)
      \<and> length (ln_weight (final_norm h)) = edim \<and> length (ln_bias (final_norm h)) = edim
      \<and> (if dueling h then list_all (\<lambda>v. length v = edim) (mh_to_values h) else True))"

definition single_head_dims :: "nat \<Rightarrow> QHeadSingleAction \<Rightarrow> bool" where
  "single_head_dims edim h =
     (0 < edim
      \<and> (case sh_to_q_values h of
            Dueling dh \<Rightarrow>
              linear_shape (stem dh) edim (length (weight (stem dh)))
              \<and> linear_shape (dh_to_values dh) (length (weight (stem dh))) 1
              \<and> linear_shape (dh_to_advantages dh) (length (weight (stem dh)))
                    (sh_action_bins h)
          | Plain nrm lin \<Rightarrow>
              length (ln_weight nrm) = edim \<and> length (ln_bias nrm) = edim
              \<and> linear_shape lin edim (sh_action_bins h)))"

definition state_shape :: "nat \<Rightarrow> vec list list \<Rightarrow> bool" where
  "state_shape edim encoded_state =
     list_all (\<lambda>ts. ts \<noteq> [] \<and> length ts = length (hd encoded_state)
                    \<and> list_all (\<lambda>t. length t = edim) ts) encoded_state"

text \<open>Shape and range of a Q-value tensor, as predicates on the nested lists.\<close>

definition in_unit_interval :: "real \<Rightarrow> bool" where
  "in_unit_interval x = (0 \<le> x \<and> x \<le> 1)"

definition is_q_matrix :: "nat \<Rightarrow> nat \<Rightarrow> real list list \<Rightarrow> bool" where
  "is_q_matrix batch bins q =
     (length q = batch
      \<and> list_all (\<lambda>row. length row = bins \<and> list_all in_unit_interval row) q)"

definition is_q_tensor :: "nat \<Rightarrow> nat \<Rightarrow> nat \<Rightarrow> real list list list \<Rightarrow> bool" where
  "is_q_tensor batch n bins q =
     (length q = batch \<and> list_all (\<lambda>rows. is_q_matrix n bins rows) q)"

subsection \<open>Greedy decoding in the words of the specification\<close>

text \<open>
  The first \<open>k\<close> bins that greedy decoding selects for one batch element whose pooled
  state token is \<open>sos\<close>: slot \<open>k\<close> is decoded from the sequence holding the state token
  and the embeddings of the bins selected so far; the transformer is run, the embedding
  at position \<open>k\<close> is scored against every bin of table \<open>k\<close>, and the argmax is appended.
\<close>

fun greedy_bins :: "QHeadMultipleActions \<Rightarrow> vec \<Rightarrow> nat \<Rightarrow> nat list" where
  "greedy_bins h sos 0 = []"
| "greedy_bins h sos (Suc k) =
     (let selected = greedy_bins h sos k;
          inputs = sos # map2 (\<lambda>tbl a. tbl ! a) (action_bin_embeddings h) selected;
          scores = map (dot (head_embed h inputs ! k)) (action_bin_embeddings h ! k)
      in selected @ [argmax scores])"

subsection \<open>A small model of each kind\<close>

text \<open>
  Two action bins and two embedding dimensions; the multi-action head has the default
  eight action slots, one transformer layer of one head with one memory token.
\<close>

definition example_attention :: TransformerAttention where
  "example_attention =
     \<lparr>heads = 1,
      to_q = \<lparr>weight = [[1, 0], [0, 1]], bias = None\<rparr>,
      to_kv = \<lparr>weight = [[1, 0], [0, 1], [0, 1], [1, 0]], bias = None\<rparr>,
      mem_kv = Some ([[[1, 1]]], [[[0, 1]]]),
      to_out = \<lparr>weight = [[1, 0], [0, 1]], bias = None\<rparr>,
      causal = True\<rparr>"

definition example_feed_forward :: FeedForward where
  "example_feed_forward =
     \<lparr>ff_gelu = (\<lambda>x. x * sigmoid x),
      ff_linear1 = \<lparr>weight = [[1, 0], [0, 1], [1, 1]], bias = Some [0, 0, 0]\<rparr>,
      ff_linear2 = \<lparr>weight = [[1, 0, 0], [0, 1, 1]], bias = Some [0, 0]\<rparr>\<rparr>"

definition example_multi_head :: "bool \<Rightarrow> QHeadMultipleActions" where
  "example_multi_head with_dueling =
     \<lparr>mh_num_actions = 8, mh_action_bins = 2,
      action_bin_embeddings = replicate 8 [[1, 0], [0, 1]],
      transformer = [(example_attention, example_feed_forward)],
      final_norm = \<lparr>ln_weight = [1, 1], ln_bias = [0, 0]\<rparr>,
      dueling = with_dueling,
      mh_to_values = replicate 8 [1, 1]\<rparr>"

definition example_dueling_head :: DuelingHead where
  "example_dueling_head =
     \<lparr>stem = \<lparr>weight = [[1, 0], [0, 1], [1, 1], [0, 0]], bias = Some [0, 0, 0, 0]\<rparr>,
      dh_to_values = \<lparr>weight = [[1, 1, 1, 1]], bias = Some [3]\<rparr>,
      dh_to_advantages = \<lparr>weight = [[1, 0, 0, 0], [0, 1, 0, 0]], bias = Some [1, 5]\<rparr>\<rparr>"

definition example_single_head :: QHeadSingleAction where
  "example_single_head =
     \<lparr>sh_action_bins = 2, sh_num_learned_tokens = 1,
      sh_to_q_values = Plain \<lparr>ln_weight = [1, 1], ln_bias = [0, 0]\<rparr>
                             \<lparr>weight = [[1, 0], [0, 1]], bias = Some [0, 0]\<rparr>\<rparr>"

definition example_single_model :: QRoboticTransformer where
  "example_single_model =
     \<lparr>num_actions = 1, is_single_action = True, action_bins = 2,
      q_head = SingleAction example_single_head\<rparr>"

definition example_multi_model :: QRoboticTransformer where
  "example_multi_model =
     \<lparr>num_actions = 8, is_single_action = False, action_bins = 2,
      q_head = MultipleActions (example_multi_head False)\<rparr>"

text \<open>
  An actions tensor of the batch by \<^verbatim>\<open>num_actions\<close> shape of the head, holding bin
  indices of the head.
\<close>

definition actions_shape :: "QHeadMultipleActions \<Rightarrow> nat list list \<Rightarrow> bool" where
  "actions_shape h acts =
     list_all (\<lambda>row. length row = mh_num_actions h
                     \<and> list_all (\<lambda>a. a < mh_action_bins h) row) acts"

text \<open>
  The transformer input that the specification describes for teacher forcing, for one
  batch element: the pooled state token, then the bin embeddings of the supplied
  actions one slot to the right, the embedding of the last action left out.
\<close>

definition teacher_forcing_input :: "QHeadMultipleActions \<Rightarrow> vec list \<Rightarrow> nat list \<Rightarrow> vec list" where
  "teacher_forcing_input h ts row =
     mean_tokens ts
       # map (\<lambda>i. action_bin_embeddings h ! i ! (row ! i)) [0..<mh_num_actions h - 1]"

text \<open>The shape of what a forward call returned, if it returned.\<close>

definition shape_of_result :: "error + q_tensor \<Rightarrow> nat list option" where
  "shape_of_result r = (case r of Inl e \<Rightarrow> None | Inr q \<Rightarrow> Some (shape q))"


section \<open>Properties\<close>

subsection \<open>Row-major indexing\<close>

lemma length_concat_rows:
  "length (concat (map (\<lambda>i. map (f i) [0..<w]) [0..<h])) = h * w"
  by (induction h) simp_all

lemma concat_rows_nth:
  "k < h * w \<Longrightarrow> concat (map (\<lambda>i. map (f i) [0..<w]) [0..<h]) ! k = f (k div w) (k mod w)"
proof (induction h)
  case 0
  then show ?case by simp
next
  case (Suc h)
  show ?case
  proof (cases "k < h * w")
    case True
    then show ?thesis using Suc.IH by (simp add: nth_append length_concat_rows)
  next
    case False
    with Suc.prems have lo: "h * w \<le> k" and hi: "k < h * w + w" by (auto simp: not_less)
    obtain r where r: "k = h * w + r" "r < w"
      using lo hi by (metis add_less_cancel_left le_Suc_ex)
    then show ?thesis using False by (simp add: nth_append length_concat_rows)
  qed
qed

lemma concat_replicate_nth:
  "k < length xs * r \<Longrightarrow> concat (map (\<lambda>x. replicate r (g x)) xs) ! k = g (xs ! (k div r))"
proof (induction xs arbitrary: k)
  case Nil
  then show ?case by simp
next
  case (Cons x xs)
  show ?case
  proof (cases "k < r")
    case True
    then show ?thesis by (simp add: nth_append)
  next
    case False
    then have kr: "k - r < length xs * r" using Cons.prems by simp
    then have "0 < r" by (cases r) auto
    with Cons.IH[OF kr] False show ?thesis
      by (simp add: nth_append not_less le_div_geq)
  qed
qed

lemma length_concat_replicate:
  "length (concat (map (\<lambda>x. replicate r (g x)) xs)) = length xs * r"
  by (induction xs) simp_all

subsection \<open>The relative position table\<close>

lemma grid_eq:
  "grid w = concat (map (\<lambda>i. map (\<lambda>j. [int i, int j]) [0..<w]) [0..<w])"
  by (cases "w = 0")
     (auto simp: grid_def rearrange_c_i_j_def meshgrid_ij_def arange_def hd_map
           intro!: arg_cong[where f=concat])

lemma length_grid: "length (grid w) = w * w"
  by (simp add: grid_eq length_concat_rows)

lemma grid_nth: "i < w * w \<Longrightarrow> grid w ! i = [int (i div w), int (i mod w)]"
  by (simp add: grid_eq concat_rows_nth)

lemma rel_pos_indices_nth:
  assumes "i < w * w" "j < w * w"
  shows "rel_pos_indices w ! i ! j =
     (int (i div w) - int (j div w) + (int w - 1)) * (2 * int w - 1)
       + (int (i mod w) - int (j mod w) + (int w - 1))"
  using assms by (simp add: rel_pos_indices_def Let_def length_grid grid_nth)

text \<open>
  Claim C8. For all window positions \<open>i\<close> and \<open>j\<close>, the entry \<open>rel_pos_indices[i][j]\<close> is
  the index of the offset \<open>grid[i] - grid[j]\<close> shifted by \<open>window_size - 1\<close>, the transposed
  entry is the index of the negated offset, and the two entries add up to the same
  constant \<open>4 * window_size * (window_size - 1)\<close> for every pair.
\<close>

theorem rel_pos_indices_transpose:
  assumes "i < window_size * window_size" and "j < window_size * window_size"
  shows "rel_pos_indices window_size ! i ! j
           = offset_index window_size (map2 (-) (grid window_size ! i) (grid window_size ! j))
       \<and> rel_pos_indices window_size ! j ! i
           = offset_index window_size
               (map uminus (map2 (-) (grid window_size ! i) (grid window_size ! j)))
       \<and> rel_pos_indices window_size ! i ! j + rel_pos_indices window_size ! j ! i
           = 4 * int window_size * (int window_size - 1)"
  using assms
  by (simp add: rel_pos_indices_nth grid_nth offset_index_def algebra_simps)

theorem rel_pos_indices_transpose_witness:
  "(1::nat) < 2 * 2 \<and> (2::nat) < 2 * 2
     \<and> rel_pos_indices 2 ! 1 ! 2 = offset_index 2 [0 - 1, 1 - 0]
     \<and> rel_pos_indices 2 ! 2 ! 1 = offset_index 2 [1 - 0, 0 - 1]
     \<and> rel_pos_indices 2 ! 1 ! 2 + rel_pos_indices 2 ! 2 ! 1 = 8"
  using rel_pos_indices_transpose[of 1 2 2] by (simp add: grid_nth)

subsection \<open>The frame mask\<close>

lemma not_triu_ones: "tensor_not (triu 1 (ones_bool f f)) = lower_triangular f"
  by (auto simp: tensor_not_def triu_def ones_bool_def lower_triangular_def)

lemma attn_mask_nth:
  assumes "p < frames * n" "q < frames * n"
  shows "attn_mask frames n ! p ! q = (q div n \<le> p div n)"
proof -
  have n: "0 < n" using assms by (cases n) auto
  have pd: "p div n < frames" and qd: "q div n < frames"
    using assms n by (simp_all add: less_mult_imp_div_less)
  let ?m = "lower_triangular frames"
  have len: "length ?m = frames" by (simp add: lower_triangular_def)
  have row: "length (?m ! (p div n)) = frames"
    using pd by (simp add: lower_triangular_def)
  have "attn_mask frames n ! p = concat (map (replicate n) (?m ! (p div n)))"
    unfolding attn_mask_def repeat_i_j_def not_triu_ones
    using concat_replicate_nth[of p ?m n "\<lambda>row. concat (map (replicate n) row)"] assms len
    by simp
  also have "\<dots> ! q = (?m ! (p div n)) ! (q div n)"
    using concat_replicate_nth[of q "?m ! (p div n)" n "\<lambda>x. x"] assms row by simp
  also have "\<dots> = (q div n \<le> p div n)"
    using pd qd by (simp add: lower_triangular_def)
  finally show ?thesis .
qed

text \<open>
  Claim C10. The mask of \<^verbatim>\<open>encode_state\<close> is the lower-triangular frames by frames
  matrix with each entry replicated \<open>num_learned_tokens\<close> times along both axes: token
  \<open>a\<close> of frame \<open>i\<close> may attend to token \<open>b\<close> of frame \<open>j\<close> exactly when \<open>j \<le> i\<close>, whatever
  \<open>a\<close> and \<open>b\<close> are, so attention inside a frame is bidirectional and no token of a later
  frame is visible.
\<close>

theorem attn_mask_block_causal:
  assumes "i < frames" and "j < frames"
    and "a < num_learned_tokens" and "b < num_learned_tokens"
  shows "attn_mask frames num_learned_tokens
           = repeat_i_j num_learned_tokens num_learned_tokens (lower_triangular frames)
       \<and> attn_mask frames num_learned_tokens
           ! (i * num_learned_tokens + a) ! (j * num_learned_tokens + b) = (j \<le> i)"
proof -
  let ?n = num_learned_tokens
  have p: "i * ?n + a < frames * ?n"
  proof -
    have "i * ?n + a < i * ?n + ?n" using assms by simp
    also have "\<dots> = Suc i * ?n" by simp
    also have "\<dots> \<le> frames * ?n" using assms by (intro mult_le_mono1) simp
    finally show ?thesis .
  qed
  have q: "j * ?n + b < frames * ?n"
  proof -
    have "j * ?n + b < j * ?n + ?n" using assms by simp
    also have "\<dots> = Suc j * ?n" by simp
    also have "\<dots> \<le> frames * ?n" using assms by (intro mult_le_mono1) simp
    finally show ?thesis .
  qed
  have "attn_mask frames ?n ! (i * ?n + a) ! (j * ?n + b) = (j \<le> i)"
    using attn_mask_nth[OF p q] assms by simp
  then show ?thesis by (simp add: attn_mask_def not_triu_ones)
qed

theorem attn_mask_block_causal_witness:
  "(1::nat) < 3 \<and> (1::nat) < 3 \<and> (0::nat) < 2 \<and> (1::nat) < 2
     \<and> attn_mask 3 2 ! (1 * 2 + 0) ! (1 * 2 + 1) = True
     \<and> attn_mask 3 2 ! (1 * 2 + 0) ! (2 * 2 + 1) = False"
proof -
  have "attn_mask 3 2 ! (1 * 2 + 0) ! (1 * 2 + 1) = ((1::nat) \<le> 1)"
    by (rule attn_mask_block_causal[of 1 3 1 0 2 1, THEN conjunct2]) simp_all
  moreover have "attn_mask 3 2 ! (1 * 2 + 0) ! (2 * 2 + 1) = ((2::nat) \<le> 1)"
    by (rule attn_mask_block_causal[of 1 3 2 0 2 1, THEN conjunct2]) simp_all
  ultimately show ?thesis by simp
qed

subsection \<open>The dueling combination\<close>

lemma broadcast2_single_right: "broadcast2 f xs [m] = map (\<lambda>x. f x m) xs"
  by (cases xs rule: list.exhaust; cases "tl xs") (auto simp: broadcast2_def)

lemma broadcast2_single_left: "broadcast2 f [v] ys = map (f v) ys"
  by (simp add: broadcast2_def)

lemma dueling_row:
  "map sigmoid (broadcast2 (+) [val] (broadcast2 (-) adv (reduce_mean_keepdim adv)))
     = dueling_q val adv"
  by (simp add: broadcast2_single_right broadcast2_single_left reduce_mean_keepdim_def
        dueling_q_def)

lemma get_q_values_dueling:
  assumes "dueling h" and "\<forall>e \<in> set emb. length e = n"
    and "n \<le> length (action_bin_embeddings h)" and "n \<le> length (mh_to_values h)"
    and "emb \<noteq> []"
  shows "get_q_values h emb =
           Inr (map (\<lambda>e. map (\<lambda>i. dueling_q (dot (e ! i) (mh_to_values h ! i))
                                  (map (dot (e ! i)) (action_bin_embeddings h ! i)))
                             [0..<n]) emb)"
proof -
  have n: "(case emb of [] \<Rightarrow> 0 | e # _ \<Rightarrow> length e) = n"
    using assms(2,5) by (cases emb) auto
  have row: "map2 (\<lambda>v a. map sigmoid (broadcast2 (+) v (broadcast2 (-) a (reduce_mean_keepdim a))))
                (map (\<lambda>v. [v]) (map2 dot e (take n (mh_to_values h))))
                (map2 (\<lambda>en tbl. map (dot en) tbl) e (take n (action_bin_embeddings h)))
             = map (\<lambda>i. dueling_q (dot (e ! i) (mh_to_values h ! i))
                                  (map (dot (e ! i)) (action_bin_embeddings h ! i))) [0..<n]"
    if "length e = n" for e
    using that assms(3,4) by (intro nth_equalityI) (simp_all add: dueling_row)
  have "get_q_values h emb =
          Inr (map (\<lambda>e. map2 (\<lambda>v a. map sigmoid
                     (broadcast2 (+) v (broadcast2 (-) a (reduce_mean_keepdim a))))
                (map (\<lambda>v. [v]) (map2 dot e (take n (mh_to_values h))))
                (map2 (\<lambda>en tbl. map (dot en) tbl) e (take n (action_bin_embeddings h)))) emb)"
    using assms(1,3)
    by (auto simp add: get_q_values_def n Let_def einsum_bnd_nad_def einsum_bnd_nd_def
          zip_map_map map_zip_map map_zip_map2 zip_same_conv_map)
  also have "\<dots> = Inr (map (\<lambda>e. map (\<lambda>i. dueling_q (dot (e ! i) (mh_to_values h ! i))
                                  (map (dot (e ! i)) (action_bin_embeddings h ! i)))
                             [0..<n]) emb)"
    using assms(2) row by simp
  finally show ?thesis .
qed

text \<open>
  Claim C2. \<^verbatim>\<open>DuelingHead.forward\<close> and the dueling branch of
  \<^verbatim>\<open>QHeadMultipleActions.get_q_values\<close> both return the sigmoid of the value plus the
  advantage less the mean of the advantages, the mean being taken over the action bins:
  for the dueling head with the value stream \<open>[val]\<close>, and for each batch element \<open>b\<close>
  and slot \<open>i\<close> of the multi-action head.
\<close>

theorem dueling_q_values:
  assumes "Linear_forward (dh_to_values dh) (map SiLU (Linear_forward (stem dh) x)) = [val]"
    and "dueling h" and "\<forall>e \<in> set emb. length e = n"
    and "n \<le> length (action_bin_embeddings h)" and "n \<le> length (mh_to_values h)"
    and "b < length emb" and "i < n"
  shows "DuelingHead_forward dh x
           = dueling_q val
               (Linear_forward (dh_to_advantages dh) (map SiLU (Linear_forward (stem dh) x)))
       \<and> (\<exists>q. get_q_values h emb = Inr q
              \<and> q ! b ! i = dueling_q (dot (emb ! b ! i) (mh_to_values h ! i))
                               (map (dot (emb ! b ! i)) (action_bin_embeddings h ! i)))"
proof
  show "DuelingHead_forward dh x
           = dueling_q val
               (Linear_forward (dh_to_advantages dh) (map SiLU (Linear_forward (stem dh) x)))"
    using assms(1) by (simp add: DuelingHead_forward_def Let_def dueling_row)
next
  have ne: "emb \<noteq> []" using assms(6) by auto
  show "\<exists>q. get_q_values h emb = Inr q
              \<and> q ! b ! i = dueling_q (dot (emb ! b ! i) (mh_to_values h ! i))
                               (map (dot (emb ! b ! i)) (action_bin_embeddings h ! i))"
    using get_q_values_dueling[OF assms(2-5) ne] assms(6,7) by simp
qed

theorem dueling_q_values_witness:
  "Linear_forward (dh_to_values example_dueling_head)
       (map SiLU (Linear_forward (stem example_dueling_head) [0, 0])) = [3]
   \<and> dueling (example_multi_head True)
   \<and> list_all (\<lambda>e. length e = 2) [[[1, 2], [3, 4 :: real]]]
   \<and> 2 \<le> length (action_bin_embeddings (example_multi_head True))
   \<and> 2 \<le> length (mh_to_values (example_multi_head True))
   \<and> (0::nat) < length [[[1, 2], [3, 4 :: real]]] \<and> (1::nat) < 2
   \<and> DuelingHead_forward example_dueling_head [0, 0]
        = dueling_q 3 (Linear_forward (dh_to_advantages example_dueling_head)
                         (map SiLU (Linear_forward (stem example_dueling_head) [0, 0])))
   \<and> (\<exists>q. get_q_values (example_multi_head True) [[[1, 2], [3, 4]]] = Inr q
          \<and> q ! 0 ! 1
              = dueling_q (dot ([[[1, 2], [3, 4]]] ! 0 ! 1)
                             (mh_to_values (example_multi_head True) ! 1))
                  (map (dot ([[[1, 2], [3, 4]]] ! 0 ! 1))
                     (action_bin_embeddings (example_multi_head True) ! 1)))"
proof -
  have v: "Linear_forward (dh_to_values example_dueling_head)
       (map SiLU (Linear_forward (stem example_dueling_head) [0, 0])) = [3]"
    by (simp add: example_dueling_head_def Linear_forward_def dot_def SiLU_def)
  have d: "dueling (example_multi_head True)" by (simp add: example_multi_head_def)
  have r: "\<forall>e \<in> set [[[1, 2], [3, 4 :: real]]]. length e = 2" by simp
  have a: "2 \<le> length (action_bin_embeddings (example_multi_head True))"
    and t: "2 \<le> length (mh_to_values (example_multi_head True))"
    by (simp_all add: example_multi_head_def)
  have b: "(0::nat) < length [[[1, 2], [3, 4 :: real]]]" and i: "(1::nat) < 2" by simp_all
  have r': "list_all (\<lambda>e. length e = 2) [[[1, 2], [3, 4 :: real]]]" by simp
  from dueling_q_values[OF v d r a t b i] v d r' a t b i show ?thesis by blast
qed

subsection \<open>The assertion of the single-action mode\<close>

text \<open>
  Claim C6. In a model with \<^verbatim>\<open>is_single_action\<close> set (\<^verbatim>\<open>num_actions == 1\<close>), a forward
  call with an actions tensor returns no Q-values whatever \<^verbatim>\<open>encode_state\<close> did, and
  whenever \<^verbatim>\<open>encode_state\<close> returned, what is raised is the assertion error.
\<close>

theorem single_action_rejects_actions:
  assumes "is_single_action m"
  shows "(\<forall>q. QRoboticTransformer_forward m encoded (Some acts) \<noteq> Inr q)
       \<and> QRoboticTransformer_forward m (Inr encoded_state) (Some acts)
           = Inl (AssertionError
               ''actions should not be passed in for single action robotic transformer'')"
  using assms by (simp add: QRoboticTransformer_forward_def split: sum.splits)

theorem single_action_rejects_actions_witness:
  "is_single_action example_single_model
   \<and> (\<forall>q. QRoboticTransformer_forward example_single_model (Inl (RuntimeError ''vit'')) (Some [[0]])
            \<noteq> Inr q)
   \<and> QRoboticTransformer_forward example_single_model (Inr [[[1, 2]]]) (Some [[0]])
       = Inl (AssertionError
           ''actions should not be passed in for single action robotic transformer'')"
proof -
  have s: "is_single_action example_single_model" by (simp add: example_single_model_def)
  from single_action_rejects_actions[OF s, of "Inl (RuntimeError ''vit'')" "[[0]]" "[[[1, 2]]]"]
    single_action_rejects_actions[OF s, of "Inr [[[1, 2]]]" "[[0]]" "[[[1, 2]]]"] s
  show ?thesis by blast
qed

subsection \<open>The random actions\<close>

lemma no_device_single: "getattr_of QHeadSingleAction_names ''device'' = Inl (AttributeError ''device'')"
  by (simp add: getattr_of_def QHeadSingleAction_names_def Module_names_def)

lemma no_action_embeddings:
  "getattr_of (QHeadMultipleActions_names d) ''action_embeddings''
     = Inl (AttributeError ''action_embeddings'')"
  by (simp add: getattr_of_def QHeadMultipleActions_names_def Module_names_def)

text \<open>
  Claim C9. For every batch size, \<^verbatim>\<open>get_random_actions\<close> of either Q head raises
  \<^verbatim>\<open>AttributeError\<close> and returns no action bins; so does
  \<^verbatim>\<open>QRoboticTransformer.get_random_actions\<close>, and so does \<^verbatim>\<open>get_actions\<close> whenever its
  assertion passes and the exploration branch is taken.
\<close>

theorem get_random_actions_raises:
  "QHeadSingleAction_get_random_actions sh batch_size rng = Inl (AttributeError ''device'')
   \<and> QHeadMultipleActions_get_random_actions mh batch_size rng = Inl (AttributeError ''device'')
   \<and> QRoboticTransformer_get_random_actions m batch_size rng = Inl (AttributeError ''device'')
   \<and> (0 \<le> p \<and> p \<le> 1 \<and> sample < p \<longrightarrow>
        get_actions m batch_size encoded p sample rng return_q_values
          = Inl (AttributeError ''device''))"
  by (simp add: QHeadSingleAction_get_random_actions_def
        QHeadMultipleActions_get_random_actions_def QHeadMultipleActions_device_def
        QRoboticTransformer_get_random_actions_def get_actions_def
        no_device_single no_action_embeddings split: q_head.splits)

theorem get_random_actions_raises_witness:
  "(0::real) \<le> 1 / 2 \<and> (1::real) / 2 \<le> 1 \<and> (1::real) / 4 < 1 / 2
   \<and> QRoboticTransformer_get_random_actions example_multi_model 3 (\<lambda>i. i)
        = Inl (AttributeError ''device'')
   \<and> get_actions example_single_model 3 (Inr [[[1, 2]]]) (1 / 2) (1 / 4) (\<lambda>i. i) False
        = Inl (AttributeError ''device'')"
  using get_random_actions_raises[of example_single_head 3 "\<lambda>i. i" "example_multi_head False"
      example_multi_model "1 / 2" "1 / 4" "Inr [[[1, 2]]]" False]
    get_random_actions_raises[of example_single_head 3 "\<lambda>i. i" "example_multi_head False"
      example_single_model "1 / 2" "1 / 4" "Inr [[[1, 2]]]" False]
  by simp

subsection \<open>Sequence lengths through the transformer\<close>

lemma length_TransformerAttention_forward [simp]:
  "length (TransformerAttention_forward a x) = length x"
  by (simp add: TransformerAttention_forward_def Let_def)

lemma length_FeedForward_forward [simp]: "length (FeedForward_forward ff x) = length x"
  by (simp add: FeedForward_forward_def)

lemma length_tokens_add [simp]: "length (tokens_add xs ys) = min (length xs) (length ys)"
  by (simp add: tokens_add_def)

lemma length_Transformer_forward [simp]: "length (Transformer_forward layers x) = length x"
  by (induction layers x rule: Transformer_forward.induct) (simp_all add: Let_def)

lemma length_head_embed [simp]: "length (head_embed h tokens) = length tokens"
  by (simp add: head_embed_def)

lemma map2_conv_nth:
  "length xs = length ys \<Longrightarrow> map2 f xs ys = map (\<lambda>i. f (xs ! i) (ys ! i)) [0..<length xs]"
  by (intro nth_equalityI) simp_all

subsection \<open>The teacher-forced input\<close>

lemma forward_tokens_Some:
  assumes abe: "length (action_bin_embeddings h) = mh_num_actions h"
    and tbl: "list_all (\<lambda>tbl. length tbl = mh_action_bins h) (action_bin_embeddings h)"
    and pos: "0 < mh_num_actions h"
    and len: "length acts = length encoded_state"
    and acts: "actions_shape h acts"
  shows "forward_tokens h (map (\<lambda>ts. [mean_tokens ts]) encoded_state) (Some acts)
           = Inr (map2 (teacher_forcing_input h) encoded_state acts)"
proof (cases acts)
  case Nil
  then show ?thesis using len by (simp add: forward_tokens_def)
next
  case (Cons r rs)
  let ?N = "mh_num_actions h"
  let ?abe = "action_bin_embeddings h"
  have rows: "length row = ?N" "\<And>i. i < ?N \<Longrightarrow> row ! i < mh_action_bins h"
    if "row \<in> set acts" for row
    using acts that by (auto simp: actions_shape_def list_all_iff)
  have n: "(case acts of [] \<Rightarrow> 0 | r # _ \<Rightarrow> length r) = ?N"
    using Cons rows(1)[of r] by simp
  have tbl_len: "length (?abe ! i) = mh_action_bins h" if "i < ?N" for i
    using tbl abe that by (simp add: list_all_length)
  have inb: "\<not> list_ex (\<lambda>row. list_ex (\<lambda>(tbl, a). length tbl \<le> a) (zip ?abe row)) acts"
  proof -
    have "a < length t" if "row \<in> set acts" "(t, a) \<in> set (zip ?abe row)" for row t a
    proof -
      from that(2) obtain i where i: "i < length (zip ?abe row)" "zip ?abe row ! i = (t, a)"
        by (auto simp: in_set_conv_nth)
      then have "i < ?N" "t = ?abe ! i" "a = row ! i" using abe by auto
      then show ?thesis using rows(2)[OF that(1)] tbl_len by simp
    qed
    then show ?thesis by (fastforce simp: list_ex_iff)
  qed
  have tok: "take ?N ([mean_tokens ts] @ map2 (\<lambda>tbl a. tbl ! a) ?abe row)
               = teacher_forcing_input h ts row"
    if "row \<in> set acts" for ts row
  proof -
    have "map2 (\<lambda>tbl a. tbl ! a) ?abe row = map (\<lambda>i. ?abe ! i ! (row ! i)) [0..<?N]"
      using map2_conv_nth[of ?abe row] abe rows(1)[OF that] by simp
    moreover obtain k where k: "?N = Suc k" using pos by (cases ?N) auto
    ultimately show ?thesis
      by (simp add: teacher_forcing_input_def take_map del: upt_Suc)
  qed
  have "map (take ?N) (map2 (@) (map (\<lambda>ts. [mean_tokens ts]) encoded_state)
            (map (\<lambda>row. map2 (\<lambda>tbl a. tbl ! a) ?abe row) acts))
          = map2 (teacher_forcing_input h) encoded_state acts"
    using tok by (auto simp: zip_map_map dest: set_zip_rightD)
  then show ?thesis
    using inb len abe by (simp add: forward_tokens_def n Let_def)
qed

text \<open>
  Claim C5. For an actions tensor of shape batch by \<^verbatim>\<open>num_actions\<close>, the tokens handed
  to the transformer are, for every batch element, the pooled state token followed by
  the bin embeddings of the actions of slots \<open>0\<close> to \<open>num_actions - 2\<close>, each one slot to
  the right: \<^verbatim>\<open>num_actions\<close> tokens, the embedding of the last action not among them;
  and the Q-values returned are those of the embeddings of these tokens.
\<close>

theorem teacher_forcing_tokens:
  assumes "length (action_bin_embeddings h) = mh_num_actions h"
    and "list_all (\<lambda>tbl. length tbl = mh_action_bins h) (action_bin_embeddings h)"
    and "0 < mh_num_actions h"
    and "length acts = length encoded_state"
    and "actions_shape h acts"
  shows "forward_tokens h (map (\<lambda>ts. [mean_tokens ts]) encoded_state) (Some acts)
           = Inr (map2 (teacher_forcing_input h) encoded_state acts)
       \<and> list_all (\<lambda>tokens. length tokens = mh_num_actions h)
           (map2 (teacher_forcing_input h) encoded_state acts)
       \<and> QHeadMultipleActions_forward h encoded_state (Some acts)
           = get_q_values h
               (map (head_embed h) (map2 (teacher_forcing_input h) encoded_state acts))"
proof -
  note tok = forward_tokens_Some[OF assms]
  have "length (teacher_forcing_input h ts row) = mh_num_actions h" for ts row
    using assms(3) by (simp add: teacher_forcing_input_def)
  then have "list_all (\<lambda>tokens. length tokens = mh_num_actions h)
           (map2 (teacher_forcing_input h) encoded_state acts)"
    by (auto simp: list_all_iff)
  then show ?thesis
    using tok by (simp add: QHeadMultipleActions_forward_def)
qed

theorem teacher_forcing_tokens_witness:
  "length (action_bin_embeddings (example_multi_head False)) = mh_num_actions (example_multi_head False)
   \<and> 0 < mh_num_actions (example_multi_head False)
   \<and> length [[0, 1, 0, 1, 0, 1, 0, 1 :: nat]] = length [[[1, 2 :: real]]]
   \<and> actions_shape (example_multi_head False) [[0, 1, 0, 1, 0, 1, 0, 1]]
   \<and> forward_tokens (example_multi_head False) (map (\<lambda>ts. [mean_tokens ts]) [[[1, 2]]])
        (Some [[0, 1, 0, 1, 0, 1, 0, 1]])
        = Inr [[[1, 2], [1, 0], [0, 1], [1, 0], [0, 1], [1, 0], [0, 1], [1, 0]]]"
proof -
  have a: "length (action_bin_embeddings (example_multi_head False))
             = mh_num_actions (example_multi_head False)"
    and b: "list_all (\<lambda>tbl. length tbl = mh_action_bins (example_multi_head False))
              (action_bin_embeddings (example_multi_head False))"
    and c: "0 < mh_num_actions (example_multi_head False)"
    by (simp_all add: example_multi_head_def list_all_length)
  have d: "length [[0, 1, 0, 1, 0, 1, 0, 1 :: nat]] = length [[[1, 2 :: real]]]" by simp
  have e: "actions_shape (example_multi_head False) [[0, 1, 0, 1, 0, 1, 0, 1]]"
    by (simp add: actions_shape_def example_multi_head_def)
  have f: "map2 (teacher_forcing_input (example_multi_head False)) [[[1, 2]]]
             [[0, 1, 0, 1, 0, 1, 0, 1]]
           = [[[1, 2], [1, 0], [0, 1], [1, 0], [0, 1], [1, 0], [0, 1], [1, 0]]]"
    by (simp add: teacher_forcing_input_def example_multi_head_def mean_tokens_def
          reduce_mean_def upt_conv_Cons)
  from teacher_forcing_tokens[OF a b c d e] a c d e f show ?thesis by simp
qed


subsection \<open>Shape and range of the Q-values\<close>

lemma sigmoid_unit: "in_unit_interval (sigmoid x)"
proof -
  have "0 < exp (- x)" by simp
  then show ?thesis by (simp add: in_unit_interval_def sigmoid_def add_pos_pos)
qed

lemma list_all_sigmoid: "list_all in_unit_interval (map sigmoid xs)"
  by (simp add: list_all_iff sigmoid_unit)

lemma length_dueling_q [simp]: "length (dueling_q v adv) = length adv"
  by (simp add: dueling_q_def)

lemma list_all_dueling_q: "list_all in_unit_interval (dueling_q v adv)"
  by (simp add: dueling_q_def list_all_iff sigmoid_unit)

lemma dueling_q_unit: "x \<in> set (dueling_q v adv) \<Longrightarrow> in_unit_interval x"
  using list_all_dueling_q[of v adv] by (simp add: list_all_iff)

lemma length_Linear_forward: "linear_outputs l n \<Longrightarrow> length (Linear_forward l x) = n"
  by (auto simp: linear_outputs_def Linear_forward_def Let_def split: option.splits)

lemma DuelingHead_forward_eq:
  assumes "Linear_forward (dh_to_values dh) (map SiLU (Linear_forward (stem dh) x)) = [val]"
  shows "DuelingHead_forward dh x
           = dueling_q val
               (Linear_forward (dh_to_advantages dh) (map SiLU (Linear_forward (stem dh) x)))"
  using assms by (simp add: DuelingHead_forward_def Let_def dueling_row)

lemma is_q_matrix_upt:
  assumes "\<And>i. i < n \<Longrightarrow> length (f i) = bins \<and> list_all in_unit_interval (f i)"
  shows "is_q_matrix n bins (map f [0..<n])"
  using assms by (simp add: is_q_matrix_def list_all_iff)

lemma get_q_values_plain:
  assumes "\<not> dueling h" and "\<forall>e \<in> set emb. length e = n"
    and "n \<le> length (action_bin_embeddings h)"
  shows "get_q_values h emb =
           Inr (map (\<lambda>e. map (\<lambda>i. map (\<lambda>bin. sigmoid (dot (e ! i) bin))
                                    (action_bin_embeddings h ! i)) [0..<n]) emb)"
proof (cases emb)
  case Nil
  then show ?thesis using assms(1) by (simp add: get_q_values_def einsum_bnd_nad_def)
next
  case (Cons e0 es)
  have n: "(case emb of [] \<Rightarrow> 0 | e # _ \<Rightarrow> length e) = n"
    using assms(2) Cons by auto
  have row: "map2 (\<lambda>en tbl. map (\<lambda>bin. sigmoid (dot en bin)) tbl) e
               (take n (action_bin_embeddings h))
             = map (\<lambda>i. map (\<lambda>bin. sigmoid (dot (e ! i) bin)) (action_bin_embeddings h ! i)) [0..<n]"
    if "length e = n" for e
    using that assms(3) by (intro nth_equalityI) simp_all
  have "get_q_values h emb =
          Inr (map (\<lambda>e. map2 (\<lambda>en tbl. map (\<lambda>bin. sigmoid (dot en bin)) tbl) e
               (take n (action_bin_embeddings h))) emb)"
    using assms(1,3)
    by (auto simp add: get_q_values_def n Let_def einsum_bnd_nad_def map_zip_map)
  also have "\<dots> = Inr (map (\<lambda>e. map (\<lambda>i. map (\<lambda>bin. sigmoid (dot (e ! i) bin))
                                    (action_bin_embeddings h ! i)) [0..<n]) emb)"
    using assms(2) row by simp
  finally show ?thesis .
qed

lemma get_q_values_shape:
  assumes ok: "multi_head_shapes h" and rect: "\<forall>e \<in> set emb. length e = n"
    and n: "n \<le> mh_num_actions h"
  shows "\<exists>q. get_q_values h emb = Inr q \<and> is_q_tensor (length emb) n (mh_action_bins h) q"
proof -
  have abe: "length (action_bin_embeddings h) = mh_num_actions h"
    and tbl: "\<And>i. i < n \<Longrightarrow> length (action_bin_embeddings h ! i) = mh_action_bins h"
    using ok n by (auto simp: multi_head_shapes_def list_all_length)
  show ?thesis
  proof (cases "dueling h")
    case False
    have "is_q_tensor (length emb) n (mh_action_bins h)
            (map (\<lambda>e. map (\<lambda>i. map (\<lambda>bin. sigmoid (dot (e ! i) bin))
                                    (action_bin_embeddings h ! i)) [0..<n]) emb)"
      unfolding is_q_tensor_def
      by (auto simp: list_all_iff tbl sigmoid_unit intro!: is_q_matrix_upt)
    then show ?thesis using get_q_values_plain[OF False rect] n abe by simp
  next
    case True
    then have tv: "n \<le> length (mh_to_values h)"
      using ok n by (simp add: multi_head_shapes_def)
    show ?thesis
    proof (cases "emb = []")
      case True
      then show ?thesis
        by (simp add: get_q_values_def einsum_bnd_nad_def einsum_bnd_nd_def is_q_tensor_def)
    next
      case False
      have "is_q_tensor (length emb) n (mh_action_bins h)
              (map (\<lambda>e. map (\<lambda>i. dueling_q (dot (e ! i) (mh_to_values h ! i))
                                  (map (dot (e ! i)) (action_bin_embeddings h ! i)))
                             [0..<n]) emb)"
        unfolding is_q_tensor_def
        by (auto simp: list_all_iff tbl dueling_q_unit intro!: is_q_matrix_upt)
      then show ?thesis
        using get_q_values_dueling[OF \<open>dueling h\<close> rect _ tv False] n abe by simp
    qed
  qed
qed

lemma QHeadMultipleActions_forward_None_shape:
  assumes "multi_head_shapes h" and "0 < mh_num_actions h"
  shows "\<exists>q. QHeadMultipleActions_forward h encoded_state None = Inr q
             \<and> is_q_tensor (length encoded_state) 1 (mh_action_bins h) q"
proof -
  let ?emb = "map (head_embed h) (map (\<lambda>ts. [mean_tokens ts]) encoded_state)"
  have "\<forall>e \<in> set ?emb. length e = 1" by auto
  from get_q_values_shape[OF assms(1) this] assms(2)
  show ?thesis by (simp add: QHeadMultipleActions_forward_def forward_tokens_def)
qed

lemma QHeadMultipleActions_forward_Some_shape:
  assumes ok: "multi_head_shapes h" and pos: "0 < mh_num_actions h"
    and len: "length acts = length encoded_state" and acts: "actions_shape h acts"
  shows "\<exists>q. QHeadMultipleActions_forward h encoded_state (Some acts) = Inr q
             \<and> is_q_tensor (length encoded_state) (mh_num_actions h) (mh_action_bins h) q"
proof -
  have abe: "length (action_bin_embeddings h) = mh_num_actions h"
    and tbl: "list_all (\<lambda>tbl. length tbl = mh_action_bins h) (action_bin_embeddings h)"
    using ok by (simp_all add: multi_head_shapes_def)
  let ?tok = "map2 (teacher_forcing_input h) encoded_state acts"
  let ?emb = "map (head_embed h) ?tok"
  have "\<forall>e \<in> set ?emb. length e = mh_num_actions h"
    using pos by (auto simp: teacher_forcing_input_def)
  from get_q_values_shape[OF ok this] forward_tokens_Some[OF abe tbl pos len acts] len
  show ?thesis by (simp add: QHeadMultipleActions_forward_def)
qed

lemma QHeadSingleAction_forward_shape:
  assumes ok: "single_head_shapes h"
    and div: "list_all (\<lambda>ts. length ts mod sh_num_learned_tokens h = 0) encoded_state"
  shows "\<exists>q. QHeadSingleAction_forward h encoded_state = Inr q
             \<and> is_q_matrix (length encoded_state) (sh_action_bins h) q"
proof -
  have noerr: "\<not> list_ex (\<lambda>ts. sh_num_learned_tokens h = 0
                  \<or> length ts mod sh_num_learned_tokens h \<noteq> 0) encoded_state"
    using ok div by (auto simp: single_head_shapes_def list_all_iff list_ex_iff)
  have row: "length (case sh_to_q_values h of
                    Dueling dh \<Rightarrow> DuelingHead_forward dh v
                  | Plain nrm lin \<Rightarrow> map sigmoid (Linear_forward lin (LayerNorm_forward nrm v)))
               = sh_action_bins h
             \<and> list_all in_unit_interval (case sh_to_q_values h of
                    Dueling dh \<Rightarrow> DuelingHead_forward dh v
                  | Plain nrm lin \<Rightarrow> map sigmoid (Linear_forward lin (LayerNorm_forward nrm v)))"
    for v
  proof (cases "sh_to_q_values h")
    case (Dueling dh)
    then have v1: "linear_outputs (dh_to_values dh) 1"
      and a: "linear_outputs (dh_to_advantages dh) (sh_action_bins h)"
      using ok by (simp_all add: single_head_shapes_def)
    from length_Linear_forward[OF v1]
    obtain val where "Linear_forward (dh_to_values dh) (map SiLU (Linear_forward (stem dh) v)) = [val]"
      by (metis One_nat_def length_0_conv length_Suc_conv)
    from DuelingHead_forward_eq[OF this] Dueling length_Linear_forward[OF a]
    show ?thesis by (simp add: list_all_dueling_q)
  next
    case (Plain nrm lin)
    then have "linear_outputs lin (sh_action_bins h)"
      using ok by (simp add: single_head_shapes_def)
    from length_Linear_forward[OF this] Plain show ?thesis by (simp add: list_all_sigmoid)
  qed
  show ?thesis
    using noerr row by (simp add: QHeadSingleAction_forward_def is_q_matrix_def list_all_iff)
qed

text \<open>
  Claim C1, amended. Take a model as \<^verbatim>\<open>__init__\<close> builds it, its Q head having the
  \<^verbatim>\<open>num_actions\<close> of the model where the head has one, and a forward pass whose
  \<^verbatim>\<open>encode_state\<close> returned a tensor of batch by tokens by the embedding dimension with
  at least one token. The Q-values
  returned all lie in the unit interval; their shape is batch by \<^verbatim>\<open>action_bins\<close> in
  single-action mode, batch by 1 by \<^verbatim>\<open>action_bins\<close> in multi-action mode without an
  actions tensor, and batch by \<^verbatim>\<open>num_actions\<close> by \<^verbatim>\<open>action_bins\<close> in multi-action mode
  with an actions tensor of batch by \<^verbatim>\<open>num_actions\<close> bin indices.
\<close>

theorem q_values_shape_and_range:
  "(built_by_init m \<and> q_head m = SingleAction sh \<and> single_head_dims edim sh
      \<and> state_shape edim encoded_state
      \<and> list_all (\<lambda>ts. length ts mod sh_num_learned_tokens sh = 0) encoded_state
      \<longrightarrow> (\<exists>q. QRoboticTransformer_forward m (Inr encoded_state) None = Inr (Rank2 q)
              \<and> is_q_matrix (length encoded_state) (action_bins m) q))
   \<and> (built_by_init m \<and> q_head m = MultipleActions h \<and> mh_num_actions h = num_actions m
      \<and> multi_head_dims edim h \<and> state_shape edim encoded_state
      \<longrightarrow> (\<exists>q. QRoboticTransformer_forward m (Inr encoded_state) None = Inr (Rank3 q)
              \<and> is_q_tensor (length encoded_state) 1 (action_bins m) q))
   \<and> (built_by_init m \<and> q_head m = MultipleActions h \<and> mh_num_actions h = num_actions m
      \<and> multi_head_dims edim h \<and> state_shape edim encoded_state
      \<and> length acts = length encoded_state \<and> actions_shape h acts
      \<longrightarrow> (\<exists>q. QRoboticTransformer_forward m (Inr encoded_state) (Some acts) = Inr (Rank3 q)
              \<and> is_q_tensor (length encoded_state) (num_actions m) (action_bins m) q))"
proof (intro conjI impI)
  assume a: "built_by_init m \<and> q_head m = SingleAction sh \<and> single_head_dims edim sh
      \<and> state_shape edim encoded_state
      \<and> list_all (\<lambda>ts. length ts mod sh_num_learned_tokens sh = 0) encoded_state"
  then have "is_single_action m" "sh_action_bins sh = action_bins m" "single_head_shapes sh"
    by (auto simp: built_by_init_def)
  then show "\<exists>q. QRoboticTransformer_forward m (Inr encoded_state) None = Inr (Rank2 q)
              \<and> is_q_matrix (length encoded_state) (action_bins m) q"
    using a QHeadSingleAction_forward_shape[of sh encoded_state]
    by (auto simp: QRoboticTransformer_forward_def)
next
  assume a: "built_by_init m \<and> q_head m = MultipleActions h \<and> mh_num_actions h = num_actions m
      \<and> multi_head_dims edim h \<and> state_shape edim encoded_state"
  then have "\<not> is_single_action m" "mh_action_bins h = action_bins m" "multi_head_shapes h"
    "0 < mh_num_actions h"
    by (auto simp: built_by_init_def)
  then show "\<exists>q. QRoboticTransformer_forward m (Inr encoded_state) None = Inr (Rank3 q)
              \<and> is_q_tensor (length encoded_state) 1 (action_bins m) q"
    using a QHeadMultipleActions_forward_None_shape[of h encoded_state]
    by (auto simp: QRoboticTransformer_forward_def)
next
  assume a: "built_by_init m \<and> q_head m = MultipleActions h \<and> mh_num_actions h = num_actions m
      \<and> multi_head_dims edim h \<and> state_shape edim encoded_state
      \<and> length acts = length encoded_state \<and> actions_shape h acts"
  then have "\<not> is_single_action m" "mh_action_bins h = action_bins m" "multi_head_shapes h"
    "0 < mh_num_actions h"
    by (auto simp: built_by_init_def)
  then show "\<exists>q. QRoboticTransformer_forward m (Inr encoded_state) (Some acts) = Inr (Rank3 q)
              \<and> is_q_tensor (length encoded_state) (num_actions m) (action_bins m) q"
    using a QHeadMultipleActions_forward_Some_shape[of h acts encoded_state]
    by (auto simp: QRoboticTransformer_forward_def)
qed

lemma example_single_head_shapes: "single_head_shapes example_single_head"
  by (simp add: single_head_shapes_def example_single_head_def linear_outputs_def)

lemma example_multi_head_shapes: "multi_head_shapes (example_multi_head d)"
  by (simp add: multi_head_shapes_def example_multi_head_def example_attention_def
        list_all_length)

theorem q_values_shape_and_range_witness:
  "built_by_init example_single_model
   \<and> q_head example_single_model = SingleAction example_single_head
   \<and> built_by_init example_multi_model
   \<and> q_head example_multi_model = MultipleActions (example_multi_head False)
   \<and> mh_num_actions (example_multi_head False) = num_actions example_multi_model
   \<and> single_head_dims 2 example_single_head
   \<and> multi_head_dims 2 (example_multi_head False)
   \<and> state_shape 2 [[[1, 2]]]
   \<and> actions_shape (example_multi_head False) [[0, 1, 0, 1, 0, 1, 0, 1]]
   \<and> (\<exists>q. QRoboticTransformer_forward example_single_model (Inr [[[1, 2]]]) None = Inr (Rank2 q)
          \<and> is_q_matrix 1 2 q)
   \<and> (\<exists>q. QRoboticTransformer_forward example_multi_model (Inr [[[1, 2]]]) None = Inr (Rank3 q)
          \<and> is_q_tensor 1 1 2 q)
   \<and> (\<exists>q. QRoboticTransformer_forward example_multi_model (Inr [[[1, 2]]])
             (Some [[0, 1, 0, 1, 0, 1, 0, 1]]) = Inr (Rank3 q)
          \<and> is_q_tensor 1 8 2 q)"
proof -
  have s: "built_by_init example_single_model"
    "q_head example_single_model = SingleAction example_single_head"
    "list_all (\<lambda>ts. length ts mod sh_num_learned_tokens example_single_head = 0) [[[1, 2 :: real]]]"
    "action_bins example_single_model = 2"
    using example_single_head_shapes
    by (simp_all add: built_by_init_def example_single_model_def example_single_head_def)
  have m: "built_by_init example_multi_model"
    "q_head example_multi_model = MultipleActions (example_multi_head False)"
    "mh_num_actions (example_multi_head False) = num_actions example_multi_model"
    "num_actions example_multi_model = 8"
    "action_bins example_multi_model = 2"
    using example_multi_head_shapes[of False]
    by (simp_all add: built_by_init_def example_multi_model_def example_multi_head_def)
  have t: "state_shape 2 [[[1, 2]]]" by (simp add: state_shape_def)
  have ds: "single_head_dims 2 example_single_head"
    by (simp add: single_head_dims_def example_single_head_def linear_shape_def)
  have dm: "multi_head_dims 2 (example_multi_head False)"
    by (simp add: multi_head_dims_def example_multi_head_def example_attention_def
          example_feed_forward_def attention_shape_def feed_forward_shape_def
          linear_shape_def list_all_iff)
  have a: "actions_shape (example_multi_head False) [[0, 1, 0, 1, 0, 1, 0, 1]]"
    by (simp add: actions_shape_def example_multi_head_def)
  have l: "length [[0, 1, 0, 1, 0, 1, 0, 1 :: nat]] = length [[[1, 2 :: real]]]" by simp
  from q_values_shape_and_range[of example_single_model example_single_head 2 "[[[1, 2]]]"
         "example_multi_head False" "[[0, 1, 0, 1, 0, 1, 0, 1]]"]
       q_values_shape_and_range[of example_multi_model example_single_head 2 "[[[1, 2]]]"
         "example_multi_head False" "[[0, 1, 0, 1, 0, 1, 0, 1]]"]
       s m t ds dm a l
  show ?thesis by simp
qed

text \<open>
  The claim as it was stated fails: with eight action slots and no actions tensor the
  forward pass returns Q-values for the first slot only, and in single-action mode the
  tensor has no slot axis.
\<close>

theorem q_values_shape_counterexample:
  "num_actions example_multi_model = 8 \<and> action_bins example_multi_model = 2
   \<and> shape_of_result (QRoboticTransformer_forward example_multi_model (Inr [[[1, 2]]]) None)
       = Some [1, 1, 2]
   \<and> num_actions example_single_model = 1 \<and> action_bins example_single_model = 2
   \<and> shape_of_result (QRoboticTransformer_forward example_single_model (Inr [[[1, 2]]]) None)
       = Some [1, 2]"
proof -
  have nd: "\<not> dueling (example_multi_head False)" by (simp add: example_multi_head_def)
  have r: "\<forall>e \<in> set (map (head_embed (example_multi_head False))
                 (map (\<lambda>ts. [mean_tokens ts]) [[[1, 2]]])). length e = 1"
    by simp
  have le: "1 \<le> length (action_bin_embeddings (example_multi_head False))"
    by (simp add: example_multi_head_def)
  have multi: "shape_of_result
      (QRoboticTransformer_forward example_multi_model (Inr [[[1, 2]]]) None) = Some [1, 1, 2]"
    using get_q_values_plain[OF nd r le]
    by (simp add: shape_of_result_def QRoboticTransformer_forward_def example_multi_model_def
          QHeadMultipleActions_forward_def forward_tokens_def)
       (simp add: example_multi_head_def)
  have single: "shape_of_result
      (QRoboticTransformer_forward example_single_model (Inr [[[1, 2]]]) None) = Some [1, 2]"
    by (simp add: shape_of_result_def QRoboticTransformer_forward_def example_single_model_def
          QHeadSingleAction_forward_def example_single_head_def Linear_forward_def)
  show ?thesis
    using multi single by (simp add: example_multi_model_def example_single_model_def)
qed


subsection \<open>Greedy decoding\<close>

lemma takeWhile_stops: "x \<in> set xs \<Longrightarrow> \<not> P x \<Longrightarrow> length (takeWhile P xs) < length xs"
  by (induction xs) auto

lemma argmax_is_max:
  assumes "xs \<noteq> []"
  shows "argmax xs < length xs \<and> xs ! argmax xs = Max (set xs)"
proof -
  obtain y ys where xs: "xs = y # ys" using assms by (cases xs) auto
  have m: "fold max (tl xs) (hd xs) = Max (set xs)"
    unfolding xs using Max.set_eq_fold[of y ys] by simp
  have "Max (set xs) \<in> set xs" using assms by simp
  then have lt: "length (takeWhile (\<lambda>x. x \<noteq> Max (set xs)) xs) < length xs"
    by (rule takeWhile_stops) simp
  from nth_length_takeWhile[OF lt] lt show ?thesis by (simp add: argmax_def m)
qed

lemma length_greedy_bins [simp]: "length (greedy_bins h sos k) = k"
  by (induction k) (simp_all add: Let_def)

lemma greedy_bins_nth:
  "j < k \<Longrightarrow> greedy_bins h sos k ! j = greedy_bins h sos (Suc j) ! j"
proof (induction k)
  case 0
  then show ?case by simp
next
  case (Suc k)
  show ?case
  proof (cases "j = k")
    case True
    then show ?thesis by simp
  next
    case False
    with Suc.prems have "j < k" by simp
    with Suc.IH have "greedy_bins h sos k ! j = greedy_bins h sos (Suc j) ! j" by simp
    moreover have "greedy_bins h sos (Suc k) ! j = greedy_bins h sos k ! j"
      using \<open>j < k\<close> by (simp add: Let_def nth_append)
    ultimately show ?thesis by simp
  qed
qed

lemma greedy_bins_take: "j \<le> k \<Longrightarrow> take j (greedy_bins h sos k) = greedy_bins h sos j"
proof (induction k)
  case 0
  then show ?case by simp
next
  case (Suc k)
  show ?case
  proof (cases "j = Suc k")
    case True
    then show ?thesis using length_greedy_bins[of h sos "Suc k"] by (simp del: greedy_bins.simps)
  next
    case False
    with Suc.prems have "j \<le> k" by simp
    with Suc.IH show ?thesis by (simp add: Let_def)
  qed
qed

lemma greedy_bins_argmax:
  assumes "i < k"
  shows "greedy_bins h sos k ! i
           = argmax (map (dot (head_embed h
                 (sos # map2 (\<lambda>tbl a. tbl ! a) (action_bin_embeddings h)
                          (take i (greedy_bins h sos k))) ! i))
               (action_bin_embeddings h ! i))"
proof -
  have "greedy_bins h sos k ! i = greedy_bins h sos (Suc i) ! i"
    using assms by (rule greedy_bins_nth)
  also have "\<dots> = argmax (map (dot (head_embed h
                 (sos # map2 (\<lambda>tbl a. tbl ! a) (action_bin_embeddings h)
                          (greedy_bins h sos i)) ! i))
               (action_bin_embeddings h ! i))"
    by (simp add: Let_def nth_append)
  also have "greedy_bins h sos i = take i (greedy_bins h sos k)"
    using assms greedy_bins_take[of i k h sos] by simp
  finally show ?thesis .
qed

lemma map2_snoc:
  "length xs < length tbls \<Longrightarrow>
     map2 f tbls (xs @ [y]) = map2 f tbls xs @ [f (tbls ! length xs) y]"
proof (induction xs arbitrary: tbls)
  case Nil
  then show ?case by (cases tbls) simp_all
next
  case (Cons x xs)
  then show ?case by (cases tbls) simp_all
qed

text \<open>The variables of the loop after \<open>k\<close> passes, in terms of \<open>greedy_bins\<close>.\<close>

lemma decode_step_greedy:
  assumes abe: "length (action_bin_embeddings h) = mh_num_actions h"
    and ne: "list_all (\<lambda>tbl. tbl \<noteq> []) (action_bin_embeddings h)"
    and k: "k < mh_num_actions h"
  shows "\<exists>emb. decode_step h k
           (map (\<lambda>ts. mean_tokens ts
                   # map2 (\<lambda>tbl a. tbl ! a) (action_bin_embeddings h)
                       (greedy_bins h (mean_tokens ts) k)) encoded_state)
         = Inr (map (\<lambda>ts. mean_tokens ts
                   # map2 (\<lambda>tbl a. tbl ! a) (action_bin_embeddings h)
                       (greedy_bins h (mean_tokens ts) (Suc k))) encoded_state,
                map (\<lambda>ts. greedy_bins h (mean_tokens ts) (Suc k) ! k) encoded_state,
                emb)"
proof -
  let ?abe = "action_bin_embeddings h"
  let ?inp = "\<lambda>k ts. mean_tokens ts # map2 (\<lambda>tbl a. tbl ! a) ?abe (greedy_bins h (mean_tokens ts) k)"
  have len: "length (?inp k ts) = Suc k" for ts using abe k by simp
  have noidx: "\<not> list_ex (\<lambda>e. length e \<le> k) (map (head_embed h) (map (?inp k) encoded_state))"
    using len by (simp add: list_ex_iff)
  have tbl: "?abe ! k \<noteq> []" using ne abe k by (simp add: list_all_length)
  have sel: "argmax (map (dot (head_embed h (?inp k ts) ! k)) (?abe ! k))
               = greedy_bins h (mean_tokens ts) (Suc k) ! k" for ts
    by (simp add: Let_def nth_append)
  have nxt: "map2 (\<lambda>tbl a. tbl ! a) ?abe (greedy_bins h (mean_tokens ts) k)
                 @ [?abe ! k ! (greedy_bins h (mean_tokens ts) (Suc k) ! k)]
               = map2 (\<lambda>tbl a. tbl ! a) ?abe (greedy_bins h (mean_tokens ts) (Suc k))" for ts
    using map2_snoc[of "greedy_bins h (mean_tokens ts) k" ?abe "\<lambda>tbl a. tbl ! a"] abe k
    by (simp add: Let_def nth_append)
  have selected: "map argmax (map (\<lambda>le. map (dot le) (?abe ! k))
                (map (\<lambda>e. e ! k) (map (head_embed h) (map (?inp k) encoded_state))))
        = map (\<lambda>ts. greedy_bins h (mean_tokens ts) (Suc k) ! k) encoded_state"
    by (simp add: comp_def sel del: greedy_bins.simps)
  have inputs: "map2 (\<lambda>hi ne. hi @ [ne]) (map (?inp k) encoded_state)
          (map (\<lambda>s. ?abe ! k ! s)
             (map (\<lambda>ts. greedy_bins h (mean_tokens ts) (Suc k) ! k) encoded_state))
        = map (?inp (Suc k)) encoded_state"
    by (simp add: zip_map_map map_zip_map zip_same_conv_map comp_def nxt
          del: greedy_bins.simps)
  have idx: "\<not> length (action_bin_embeddings h) \<le> k" using abe k by simp
  show ?thesis
    unfolding decode_step_def Let_def
    by (simp only: noidx idx tbl if_False selected inputs) blast
qed

lemma decode_loop_greedy:
  assumes abe: "length (action_bin_embeddings h) = mh_num_actions h"
    and ne: "list_all (\<lambda>tbl. tbl \<noteq> []) (action_bin_embeddings h)"
    and k: "k \<le> mh_num_actions h"
  shows "\<exists>emb'. decode_loop h [k..<mh_num_actions h]
           (map (\<lambda>ts. mean_tokens ts
                   # map2 (\<lambda>tbl a. tbl ! a) (action_bin_embeddings h)
                       (greedy_bins h (mean_tokens ts) k)) encoded_state)
           (map (\<lambda>j. map (\<lambda>ts. greedy_bins h (mean_tokens ts) (Suc j) ! j) encoded_state) [0..<k])
           emb
         = Inr (map (\<lambda>ts. mean_tokens ts
                   # map2 (\<lambda>tbl a. tbl ! a) (action_bin_embeddings h)
                       (greedy_bins h (mean_tokens ts) (mh_num_actions h))) encoded_state,
                map (\<lambda>j. map (\<lambda>ts. greedy_bins h (mean_tokens ts) (Suc j) ! j) encoded_state)
                    [0..<mh_num_actions h],
                emb')"
proof -
  let ?N = "mh_num_actions h"
  let ?HI = "\<lambda>k. map (\<lambda>ts. mean_tokens ts
                   # map2 (\<lambda>tbl a. tbl ! a) (action_bin_embeddings h)
                       (greedy_bins h (mean_tokens ts) k)) encoded_state"
  let ?sel = "\<lambda>j. map (\<lambda>ts. greedy_bins h (mean_tokens ts) (Suc j) ! j) encoded_state"
  let ?AB = "\<lambda>k. map ?sel [0..<k]"
  have "\<exists>emb'. decode_loop h [k..<?N] (?HI k) (?AB k) emb = Inr (?HI ?N, ?AB ?N, emb')"
    using k
  proof (induction "?N - k" arbitrary: k emb)
    case 0
    then have "k = ?N" by simp
    then show ?case by simp
  next
    case (Suc d)
    then have lt: "k < ?N" by simp
    from decode_step_greedy[OF abe ne lt, of encoded_state]
    obtain e1 where step: "decode_step h k (?HI k) = Inr (?HI (Suc k), ?sel k, e1)"
      by blast
    have d: "d = ?N - Suc k" and le: "Suc k \<le> ?N"
      using Suc.hyps(2) lt by simp_all
    from Suc.hyps(1)[OF d le, of "Some e1"]
    obtain e2 where ih: "decode_loop h [Suc k..<?N] (?HI (Suc k)) (?AB (Suc k)) (Some e1)
                           = Inr (?HI ?N, ?AB ?N, e2)"
      by blast
    have up: "[k..<?N] = k # [Suc k..<?N]" using lt by (rule upt_conv_Cons)
    have ab: "?AB k @ [?sel k] = ?AB (Suc k)" by simp
    have "decode_loop h [k..<?N] (?HI k) (?AB k) emb
            = decode_loop h [Suc k..<?N] (?HI (Suc k)) (?AB k @ [?sel k]) (Some e1)"
      by (subst up) (simp only: decode_loop.simps step sum.case prod.case)
    also have "\<dots> = Inr (?HI ?N, ?AB ?N, e2)" by (simp only: ab ih)
    finally show ?case by blast
  qed
  then show ?thesis .
qed

lemma stack_last_greedy:
  "stack_last (length encoded_state)
     (map (\<lambda>j. map (\<lambda>ts. greedy_bins h (mean_tokens ts) (Suc j) ! j) encoded_state) [0..<n])
   = map (\<lambda>ts. greedy_bins h (mean_tokens ts) n) encoded_state"
proof -
  have "map (\<lambda>j. greedy_bins h s (Suc j) ! j) [0..<n] = greedy_bins h s n" for s
  proof (rule nth_equalityI)
    show "length (map (\<lambda>j. greedy_bins h s (Suc j) ! j) [0..<n]) = length (greedy_bins h s n)"
      by simp
  next
    fix i
    assume "i < length (map (\<lambda>j. greedy_bins h s (Suc j) ! j) [0..<n])"
    then have i: "i < n" by simp
    from greedy_bins_nth[OF i, of h s] i
    show "map (\<lambda>j. greedy_bins h s (Suc j) ! j) [0..<n] ! i = greedy_bins h s n ! i"
      by (simp del: greedy_bins.simps)
  qed
  then show ?thesis
    unfolding stack_last_def
    by (intro nth_equalityI) (simp_all add: comp_def del: greedy_bins.simps)
qed

text \<open>
  Claim C4. \<^verbatim>\<open>get_optimal_actions\<close> is greedy autoregressive decoding: for a head with
  one non-empty table per action slot and parameters of the shapes of its constructor, and
  an encoded state of at least one token per batch element, it returns, for every batch
  element, the bins that \<open>greedy_bins\<close> selects from the mean-pooled state token over all
  \<^verbatim>\<open>num_actions\<close> slots, one bin per slot. The bin of slot \<open>i\<close> is the argmax, and so a
  bin of maximal score, of the scores of the embedding at position \<open>i\<close> against table
  \<open>i\<close>, the transformer having run on the state token followed by the embeddings of the
  bins of the slots before \<open>i\<close>.
\<close>

theorem greedy_autoregressive_decoding:
  assumes "length (action_bin_embeddings h) = mh_num_actions h"
    and "list_all (\<lambda>tbl. tbl \<noteq> []) (action_bin_embeddings h)"
    and "0 < mh_num_actions h"
    and "multi_head_dims edim h" and "state_shape edim encoded_state"
    and "b < length encoded_state" and "i < mh_num_actions h"
  shows "get_optimal_actions h encoded_state False
           = Inr (map (\<lambda>ts. greedy_bins h (mean_tokens ts) (mh_num_actions h)) encoded_state,
                  None)
       \<and> list_all (\<lambda>bins. length bins = mh_num_actions h)
           (map (\<lambda>ts. greedy_bins h (mean_tokens ts) (mh_num_actions h)) encoded_state)
       \<and> (\<exists>bins. get_optimal_actions h encoded_state False = Inr (bins, None)
            \<and> bins ! b ! i
                = argmax (map (dot (head_embed h
                      (mean_tokens (encoded_state ! b)
                         # map2 (\<lambda>tbl a. tbl ! a) (action_bin_embeddings h)
                             (take i (bins ! b))) ! i))
                    (action_bin_embeddings h ! i))
            \<and> bins ! b ! i < length (action_bin_embeddings h ! i)
            \<and> map (dot (head_embed h
                      (mean_tokens (encoded_state ! b)
                         # map2 (\<lambda>tbl a. tbl ! a) (action_bin_embeddings h)
                             (take i (bins ! b))) ! i))
                    (action_bin_embeddings h ! i) ! (bins ! b ! i)
                = Max (set (map (dot (head_embed h
                      (mean_tokens (encoded_state ! b)
                         # map2 (\<lambda>tbl a. tbl ! a) (action_bin_embeddings h)
                             (take i (bins ! b))) ! i))
                    (action_bin_embeddings h ! i))))"
proof -
  let ?N = "mh_num_actions h"
  let ?bins = "map (\<lambda>ts. greedy_bins h (mean_tokens ts) ?N) encoded_state"
  from decode_loop_greedy[OF assms(1,2), of 0 encoded_state None]
  obtain emb' where loop: "decode_loop h [0..<?N]
        (map (\<lambda>ts. [mean_tokens ts]) encoded_state) [] None
      = Inr (map (\<lambda>ts. mean_tokens ts
                   # map2 (\<lambda>tbl a. tbl ! a) (action_bin_embeddings h)
                       (greedy_bins h (mean_tokens ts) ?N)) encoded_state,
             map (\<lambda>j. map (\<lambda>ts. greedy_bins h (mean_tokens ts) (Suc j) ! j) encoded_state)
                 [0..<?N],
             emb')"
    by auto
  have nonempty: "map (\<lambda>j. map (\<lambda>ts. greedy_bins h (mean_tokens ts) (Suc j) ! j) encoded_state)
                 [0..<?N] \<noteq> []"
    using assms(3) by simp
  have res: "get_optimal_actions h encoded_state False = Inr (?bins, None)"
    unfolding get_optimal_actions_def Let_def loop
    using nonempty stack_last_greedy[of encoded_state h ?N]
    by (simp del: greedy_bins.simps)
  have len: "list_all (\<lambda>bins. length bins = ?N) ?bins"
    by (simp add: list_all_iff del: greedy_bins.simps)
  let ?scores = "map (dot (head_embed h
                      (mean_tokens (encoded_state ! b)
                         # map2 (\<lambda>tbl a. tbl ! a) (action_bin_embeddings h)
                             (take i (?bins ! b))) ! i))
                    (action_bin_embeddings h ! i)"
  have sel: "?bins ! b ! i = argmax ?scores"
    using assms(6) greedy_bins_argmax[OF assms(7), of h "mean_tokens (encoded_state ! b)"]
    by (simp del: greedy_bins.simps)
  have "action_bin_embeddings h ! i \<noteq> []"
    using assms(1,2,7) by (simp add: list_all_length)
  then have "?scores \<noteq> []" by simp
  from argmax_is_max[OF this] sel
  have "?bins ! b ! i < length (action_bin_embeddings h ! i)"
    and "?scores ! (?bins ! b ! i) = Max (set ?scores)"
    by (simp_all del: greedy_bins.simps)
  with res len sel show ?thesis by (simp del: greedy_bins.simps)
qed

theorem greedy_autoregressive_decoding_witness:
  "length (action_bin_embeddings (example_multi_head False))
     = mh_num_actions (example_multi_head False)
   \<and> list_all (\<lambda>tbl. tbl \<noteq> []) (action_bin_embeddings (example_multi_head False))
   \<and> 0 < mh_num_actions (example_multi_head False)
   \<and> multi_head_dims 2 (example_multi_head False)
   \<and> state_shape 2 [[[1, 2], [0, 1]], [[3, 5], [1, 1]]]
   \<and> get_optimal_actions (example_multi_head False) [[[1, 2], [0, 1]], [[3, 5], [1, 1]]] False
       = Inr (map (\<lambda>ts. greedy_bins (example_multi_head False) (mean_tokens ts) 8)
                [[[1, 2], [0, 1]], [[3, 5], [1, 1]]], None)"
proof -
  have a: "length (action_bin_embeddings (example_multi_head False))
     = mh_num_actions (example_multi_head False)"
    and b: "list_all (\<lambda>tbl. tbl \<noteq> []) (action_bin_embeddings (example_multi_head False))"
    and c: "0 < mh_num_actions (example_multi_head False)"
    and d: "mh_num_actions (example_multi_head False) = 8"
    by (simp_all add: example_multi_head_def list_all_length)
  have e: "multi_head_dims 2 (example_multi_head False)"
    by (simp add: multi_head_dims_def example_multi_head_def example_attention_def
          example_feed_forward_def attention_shape_def feed_forward_shape_def
          linear_shape_def list_all_iff)
  have f: "state_shape 2 [[[1, 2], [0, 1]], [[3, 5], [1, 1]]]" by (simp add: state_shape_def)
  have g: "(1::nat) < length [[[1, 2], [0, 1]], [[3, 5], [1, 1 :: real]]]" by simp
  have i: "3 < mh_num_actions (example_multi_head False)" using d by simp
  from greedy_autoregressive_decoding[OF a b c e f g i] a b c d e f
  show ?thesis by (simp del: greedy_bins.simps)
qed


subsection \<open>Causality of the transformer of the Q head\<close>

lemma causal_attend_prefix:
  assumes "i < n" and "i < length x" and "length mk = length mv"
  shows "Attend_forward True (map fq (take n x)) (mk @ map fk (take n x))
             (mv @ map fv (take n x)) ! i
           = Attend_forward True (map fq x) (mk @ map fk x) (mv @ map fv x) ! i"
proof -
  have i': "i < length (take n x)" using assms(1,2) by simp
  have k: "take (length mk + Suc i) (mk @ map fk (take n x))
             = take (length mk + Suc i) (mk @ map fk x)"
    using assms(1) by (simp add: take_map min_def)
  have v: "take (length mk + Suc i) (mv @ map fv (take n x))
             = take (length mk + Suc i) (mv @ map fv x)"
    using assms(1,3) by (simp add: take_map min_def)
  have l: "Attend_forward True (map fq y) (mk @ map fk y) (mv @ map fv y) ! j
             = attend_row (fq (y ! j)) (take (length mk + Suc j) (mk @ map fk y))
                 (take (length mk + Suc j) (mv @ map fv y))"
    if "j < length y" for y j
    using that by (simp add: Attend_forward_def Let_def)
  show ?thesis
    unfolding l[OF i'] l[OF assms(2)] k v using assms(1,2) by simp
qed

lemma TransformerAttention_prefix:
  assumes c: "causal a"
    and mem: "\<And>mk mv hd_idx. mem_kv a = Some (mk, mv) \<Longrightarrow> hd_idx < heads a
                \<Longrightarrow> length (mk ! hd_idx) = length (mv ! hd_idx)"
  shows "take n (TransformerAttention_forward a x) = TransformerAttention_forward a (take n x)"
proof (rule nth_equalityI)
  show "length (take n (TransformerAttention_forward a x))
          = length (TransformerAttention_forward a (take n x))"
    by simp
next
  fix i
  assume "i < length (take n (TransformerAttention_forward a x))"
  then have i: "i < n" "i < length x" by simp_all
  define fq where "fq hd_idx = (\<lambda>t. split_heads (heads a)
                      (Linear_forward (to_q a) (layer_norm t)) ! hd_idx)" for hd_idx
  define fk where "fk hd_idx = (\<lambda>t. split_heads (heads a)
                      (take ((length (Linear_forward (to_kv a) t) + 1) div 2)
                         (Linear_forward (to_kv a) t)) ! hd_idx)" for hd_idx
  define fv where "fv hd_idx = (\<lambda>t. split_heads (heads a)
                      (drop ((length (Linear_forward (to_kv a) t) + 1) div 2)
                         (Linear_forward (to_kv a) t)) ! hd_idx)" for hd_idx
  define memk where "memk hd_idx = (case mem_kv a of None \<Rightarrow> []
                                    | Some (mk, mv) \<Rightarrow> mk ! hd_idx)" for hd_idx
  define memv where "memv hd_idx = (case mem_kv a of None \<Rightarrow> []
                                    | Some (mk, mv) \<Rightarrow> mv ! hd_idx)" for hd_idx
  have at: "TransformerAttention_forward a y ! j
              = Linear_forward (to_out a)
                  (concat (map (\<lambda>hd_idx. Attend_forward True (map (fq hd_idx) y)
                                   (memk hd_idx @ map (fk hd_idx) y)
                                   (memv hd_idx @ map (fv hd_idx) y) ! j) [0..<heads a]))"
    if "j < length y" for y j
  proof (cases "mem_kv a")
    case None
    then show ?thesis
      using that c
      by (simp add: TransformerAttention_forward_def Let_def fq_def fk_def fv_def
            memk_def memv_def comp_def)
  next
    case (Some p)
    then obtain mk mv where "mem_kv a = Some (mk, mv)" by (cases p) simp
    then show ?thesis
      using that c
      by (simp add: TransformerAttention_forward_def Let_def fq_def fk_def fv_def
            memk_def memv_def comp_def)
  qed
  have ml: "length (memk hd_idx) = length (memv hd_idx)" if "hd_idx < heads a" for hd_idx
    using mem that by (auto simp: memk_def memv_def split: option.splits)
  have heads_eq:
    "map (\<lambda>hd_idx. Attend_forward True (map (fq hd_idx) (take n x))
                      (memk hd_idx @ map (fk hd_idx) (take n x))
                      (memv hd_idx @ map (fv hd_idx) (take n x)) ! i) [0..<heads a]
     = map (\<lambda>hd_idx. Attend_forward True (map (fq hd_idx) x)
                      (memk hd_idx @ map (fk hd_idx) x)
                      (memv hd_idx @ map (fv hd_idx) x) ! i) [0..<heads a]"
    by (rule map_cong[OF refl]) (simp add: causal_attend_prefix[OF i] ml)
  have "TransformerAttention_forward a (take n x) ! i = TransformerAttention_forward a x ! i"
    using at[of i "take n x"] at[of i x] i heads_eq by simp
  then show "take n (TransformerAttention_forward a x) ! i
               = TransformerAttention_forward a (take n x) ! i"
    using i by simp
qed

lemma FeedForward_prefix:
  "take n (FeedForward_forward ff x) = FeedForward_forward ff (take n x)"
  by (simp add: FeedForward_forward_def take_map)

lemma tokens_add_prefix:
  "take n (tokens_add xs ys) = tokens_add (take n xs) (take n ys)"
  by (simp add: tokens_add_def take_map take_zip)

lemma Transformer_prefix:
  assumes "\<forall>(attn, ff) \<in> set layers. causal attn
             \<and> (\<forall>mk mv hd_idx. mem_kv attn = Some (mk, mv) \<longrightarrow> hd_idx < heads attn
                    \<longrightarrow> length (mk ! hd_idx) = length (mv ! hd_idx))"
  shows "take n (Transformer_forward layers x) = Transformer_forward layers (take n x)"
  using assms
proof (induction layers x rule: Transformer_forward.induct)
  case (1 x)
  then show ?case by simp
next
  case (2 attn ff layers x)
  have c: "causal attn" using "2.prems" by simp
  have m: "length (mk ! hd_idx) = length (mv ! hd_idx)"
    if "mem_kv attn = Some (mk, mv)" "hd_idx < heads attn" for mk mv hd_idx
    using "2.prems" that by simp
  have rest: "\<forall>(attn, ff) \<in> set layers. causal attn
             \<and> (\<forall>mk mv hd_idx. mem_kv attn = Some (mk, mv) \<longrightarrow> hd_idx < heads attn
                    \<longrightarrow> length (mk ! hd_idx) = length (mv ! hd_idx))"
    using "2.prems" by simp
  let ?x1 = "tokens_add (TransformerAttention_forward attn x) x"
  let ?x2 = "tokens_add (FeedForward_forward ff ?x1) ?x1"
  have ih: "take n (Transformer_forward layers ?x2) = Transformer_forward layers (take n ?x2)"
    by (rule "2.IH"[OF refl refl rest])
  have "take n ?x2 = tokens_add (FeedForward_forward ff
                         (tokens_add (TransformerAttention_forward attn (take n x)) (take n x)))
                       (tokens_add (TransformerAttention_forward attn (take n x)) (take n x))"
    by (simp only: tokens_add_prefix FeedForward_prefix TransformerAttention_prefix[OF c m])
  with ih show ?case by (simp add: Let_def)
qed

lemma head_embed_prefix:
  assumes "multi_head_shapes h" and "multi_head_dims edim h"
  shows "take n (head_embed h tokens) = head_embed h (take n tokens)"
proof -
  have c: "causal attn" if "(attn, ff) \<in> set (transformer h)" for attn ff
    using assms(1) that by (auto simp: multi_head_shapes_def list_all_iff)
  have m: "length (mk ! hd_idx) = length (mv ! hd_idx)"
    if "(attn, ff) \<in> set (transformer h)" "mem_kv attn = Some (mk, mv)" "hd_idx < heads attn"
    for attn ff mk mv hd_idx
  proof -
    from assms(2) that(1) have "attention_shape edim attn"
      by (auto simp: multi_head_dims_def list_all_iff)
    with that(2) have l: "length mk = heads attn" "length mv = heads attn"
      and a: "\<And>mem. mem \<in> set (mk @ mv) \<Longrightarrow> length mem = length (hd mk)"
      by (auto simp: attention_shape_def Let_def list_all_iff)
    have "mk ! hd_idx \<in> set (mk @ mv)" "mv ! hd_idx \<in> set (mk @ mv)"
      using l that(3) by simp_all
    with a show ?thesis by metis
  qed
  have "\<forall>(attn, ff) \<in> set (transformer h). causal attn
             \<and> (\<forall>mk mv hd_idx. mem_kv attn = Some (mk, mv) \<longrightarrow> hd_idx < heads attn
                    \<longrightarrow> length (mk ! hd_idx) = length (mv ! hd_idx))"
    using c m by blast
  from Transformer_prefix[OF this] show ?thesis
    by (simp add: head_embed_def take_map)
qed

text \<open>
  Claim C3. In a multi-action head as its constructor builds it, the embedding of action
  slot \<open>i\<close> is the same whatever tokens follow slot \<open>i\<close>: it is the embedding at position
  \<open>i\<close> of the sequence cut after slot \<open>i\<close>, which holds the pooled state token and the
  tokens of the slots up to \<open>i\<close>. This is so for every input of the transformer, that of
  a decoding pass as that of the teacher-forced pass; in the teacher-forced pass the
  embedding of slot \<open>i\<close> is the same for two rows of actions that agree before slot \<open>i\<close>.
\<close>

theorem causal_slot_embedding:
  assumes "multi_head_shapes h" and "multi_head_dims edim h"
    and "i < length tokens" and "take i row = take i row'"
  shows "head_embed h (tokens @ future) ! i = head_embed h (take (Suc i) tokens) ! i
       \<and> head_embed h (teacher_forcing_input h ts row) ! i
           = head_embed h (teacher_forcing_input h ts row') ! i"
proof
  have "head_embed h (tokens @ future) ! i = take (Suc i) (head_embed h (tokens @ future)) ! i"
    by simp
  also have "\<dots> = head_embed h (take (Suc i) (tokens @ future)) ! i"
    by (simp only: head_embed_prefix[OF assms(1,2)])
  also have "take (Suc i) (tokens @ future) = take (Suc i) tokens"
    using assms(3) by simp
  finally show "head_embed h (tokens @ future) ! i = head_embed h (take (Suc i) tokens) ! i" .
next
  have r: "row ! j = row' ! j" if "j < i" for j
    using assms(4) that by (metis nth_take)
  have lt: "j < i" if "j \<in> set (take i [0..<m])" for j m
    using that by (auto simp: in_set_conv_nth)
  have "take (Suc i) (teacher_forcing_input h ts row)
          = take (Suc i) (teacher_forcing_input h ts row')"
    by (simp add: teacher_forcing_input_def take_map) (metis lt r)
  then have "take (Suc i) (head_embed h (teacher_forcing_input h ts row))
          = take (Suc i) (head_embed h (teacher_forcing_input h ts row'))"
    by (simp only: head_embed_prefix[OF assms(1,2)])
  then have "take (Suc i) (head_embed h (teacher_forcing_input h ts row)) ! i
          = take (Suc i) (head_embed h (teacher_forcing_input h ts row')) ! i"
    by simp
  then show "head_embed h (teacher_forcing_input h ts row) ! i
           = head_embed h (teacher_forcing_input h ts row') ! i"
    by simp
qed

theorem causal_slot_embedding_witness:
  "multi_head_shapes (example_multi_head False)
   \<and> multi_head_dims 2 (example_multi_head False)
   \<and> (1::nat) < length [[1, 2], [3, 4 :: real]]
   \<and> take 1 [0, 1, 0] = take 1 [0, 0, 1 :: nat]
   \<and> head_embed (example_multi_head False) ([[1, 2], [3, 4]] @ [[5, 6]]) ! 1
       = head_embed (example_multi_head False) (take (Suc 1) [[1, 2], [3, 4]]) ! 1
   \<and> head_embed (example_multi_head False)
         (teacher_forcing_input (example_multi_head False) [[1, 2]] [0, 1, 0]) ! 1
       = head_embed (example_multi_head False)
           (teacher_forcing_input (example_multi_head False) [[1, 2]] [0, 0, 1]) ! 1"
proof -
  have d: "multi_head_dims 2 (example_multi_head False)"
    by (simp add: multi_head_dims_def example_multi_head_def example_attention_def
          example_feed_forward_def attention_shape_def feed_forward_shape_def
          linear_shape_def list_all_iff)
  have l: "(1::nat) < length [[1, 2], [3, 4 :: real]]" by simp
  have r: "take 1 [0, 1, 0] = take 1 [0, 0, 1 :: nat]" by simp
  from causal_slot_embedding[OF example_multi_head_shapes[of False] d l r,
         of "[[5, 6]]" "[[1, 2]]"]
       example_multi_head_shapes[of False] d l r
  show ?thesis by blast
qed


subsection \<open>The token learner\<close>

lemma Conv2d_forward_shape:
  assumes cs: "conv_shape cv groups in_per_group out_channels"
    and lx: "length x = in_per_group * groups" and xne: "x \<noteq> []"
    and pos: "0 < out_channels" "0 < h" "0 < w"
    and planes: "list_all (\<lambda>plane. length plane = h \<and> list_all (\<lambda>row. length row = w) plane) x"
  shows "\<exists>y. Conv2d_forward cv x = Inr y \<and> length y = out_channels
             \<and> list_all (\<lambda>plane. length plane = h \<and> list_all (\<lambda>row. length row = w) plane) y"
proof -
  obtain r rs where wt: "cv_weight cv = r # rs" and r: "length r = in_per_group"
    using cs pos(1) by (cases "cv_weight cv") (auto simp: conv_shape_def)
  obtain p ps where x: "x = p # ps" using xne by (cases x) auto
  have p: "length p = h" "list_all (\<lambda>row. length row = w) p"
    using planes x by simp_all
  then obtain q qs where pq: "p = q # qs" using pos(2) by (cases p) auto
  have q: "length q = w" using p(2) pq by simp
  have ipg: "(case cv_weight cv of [] \<Rightarrow> 0 | r # _ \<Rightarrow> length r) = in_per_group"
    using wt r by simp
  have hh: "(case x of [] \<Rightarrow> 0 | p # _ \<Rightarrow> length p) = h" using x p(1) by simp
  have ww: "(case x of [] \<Rightarrow> 0 | p # _ \<Rightarrow> (case p of [] \<Rightarrow> 0 | r # _ \<Rightarrow> length r)) = w"
    using x pq q by simp
  have g: "cv_groups cv = groups" and oc: "length (cv_weight cv) = out_channels"
    using cs by (simp_all add: conv_shape_def)
  show ?thesis
    unfolding Conv2d_forward_def Let_def ipg hh ww g oc
    using lx pos by (simp add: list_all_iff)
qed

lemma length_concat_replicate_channels: "length (concat (replicate g x)) = g * length x"
  by (induction g) simp_all

lemma list_all_concat_replicate: "list_all P x \<Longrightarrow> list_all P (concat (replicate g x))"
  by (induction g) simp_all

lemma TokenLearner_frame_shape:
  assumes ok: "token_learner_shapes edim lrn"
    and c: "length x0 = edim" and pos: "0 < h" "0 < w"
    and planes: "list_all (\<lambda>plane. length plane = h \<and> list_all (\<lambda>row. length row = w) plane) x0"
  shows "\<exists>t. TokenLearner_frame lrn x0 = Inr t \<and> length t = edim
             \<and> list_all (\<lambda>row. length row = num_output_tokens lrn) t"
proof -
  let ?g = "num_output_tokens lrn"
  let ?inner = "length (cv_weight (tl_conv1 lrn))"
  let ?x = "concat (replicate ?g x0)"
  have g: "0 < ?g" and e: "0 < edim" and inner: "0 < ?inner" "?inner mod ?g = 0"
    and c1: "conv_shape (tl_conv1 lrn) ?g edim ?inner"
    and c2: "conv_shape (tl_conv2 lrn) ?g (?inner div ?g) ?g"
    using ok by (simp_all add: token_learner_shapes_def Let_def)
  have lx: "length ?x = edim * ?g" using c by (simp add: length_concat_replicate_channels)
  then have xne: "?x \<noteq> []" using g e by auto
  have px: "list_all (\<lambda>plane. length plane = h \<and> list_all (\<lambda>row. length row = w) plane) ?x"
    using planes by (rule list_all_concat_replicate)
  from Conv2d_forward_shape[OF c1 lx xne inner(1) pos px]
  obtain y where y: "Conv2d_forward (tl_conv1 lrn) ?x = Inr y" "length y = ?inner"
    "list_all (\<lambda>plane. length plane = h \<and> list_all (\<lambda>row. length row = w) plane) y"
    by blast
  let ?y = "map (map (map (tl_gelu lrn))) y"
  have ly: "length ?y = (?inner div ?g) * ?g"
    using y(2) inner(2) by (auto simp: mod_eq_0_iff_dvd)
  have yne: "?y \<noteq> []" using y(2) inner(1) by auto
  have py: "list_all (\<lambda>plane. length plane = h \<and> list_all (\<lambda>row. length row = w) plane) ?y"
    using y(3) by (simp add: list_all_iff)
  from Conv2d_forward_shape[OF c2 ly yne g pos py]
  obtain attn where a: "Conv2d_forward (tl_conv2 lrn) ?y = Inr attn" "length attn = ?g"
    by blast
  have cdiv: "length ?x div ?g = edim" using lx g by simp
  show ?thesis
    using y(1) a cdiv by (simp add: TokenLearner_frame_def Let_def list_all_iff)
qed

lemma all_results_shape:
  assumes "\<And>x. x \<in> set xs \<Longrightarrow> \<exists>t. f x = Inr t \<and> P t"
  shows "\<exists>ys. all_results (map f xs) = Inr ys \<and> length ys = length xs \<and> list_all P ys"
  using assms
proof (induction xs)
  case Nil
  then show ?case by simp
next
  case (Cons x xs)
  from Cons.prems[of x] obtain t where t: "f x = Inr t" "P t" by auto
  from Cons.IH Cons.prems obtain ys
    where ys: "all_results (map f xs) = Inr ys" "length ys = length xs" "list_all P ys"
    by auto
  show ?case using t ys by simp
qed

lemma length_concat_frames:
  "list_all (\<lambda>fs. length fs = frames) x \<Longrightarrow> length (concat x) = length x * frames"
  by (induction x) simp_all

lemma unpack_one_shape:
  assumes "length y = batch * frames" and "list_all P y"
  shows "length (unpack_one y (batch, frames)) = batch
       \<and> list_all (\<lambda>fs. length fs = frames \<and> list_all P fs) (unpack_one y (batch, frames))"
proof -
  have "length (take frames (drop (b * frames) y)) = frames" if "b < batch" for b
  proof -
    have "Suc b * frames \<le> batch * frames" using that by (intro mult_le_mono1) simp
    then show ?thesis using assms(1) by simp
  qed
  moreover have "list_all P (take frames (drop (b * frames) y))" for b
    using assms(2) by (auto simp: list_all_iff dest!: in_set_takeD in_set_dropD)
  ultimately show ?thesis by (simp add: unpack_one_def list_all_iff)
qed

text \<open>
  Claim C7. For a token learner of the shapes of its constructor and a tensor of batch by
  frames feature maps of its channels, of any height and width of at least 1,
  \<^verbatim>\<open>TokenLearner.forward\<close> returns a tensor of the same batch and frames whose last axis
  has \<^verbatim>\<open>num_output_tokens\<close> entries, after the axis of the channels.
\<close>

theorem token_learner_output_shape:
  assumes "token_learner_shapes edim lrn" and "video_features frames edim h w x"
    and "0 < h" and "0 < w"
  shows "\<exists>y. TokenLearner_forward lrn x = Inr y
           \<and> learned_tokens_shape (length x) frames edim (num_output_tokens lrn) y"
proof -
  let ?P = "\<lambda>t. length t = edim \<and> list_all (\<lambda>row. length row = num_output_tokens lrn) t"
  have fr: "list_all (\<lambda>fs. length fs = frames) x"
    using assms(2) by (simp add: video_features_def list_all_iff)
  have "\<exists>t. TokenLearner_frame lrn fm = Inr t \<and> ?P t" if "fm \<in> set (concat x)" for fm
  proof -
    from that assms(2) have "length fm = edim"
      and "list_all (\<lambda>plane. length plane = h \<and> list_all (\<lambda>row. length row = w) plane) fm"
      by (auto simp: video_features_def list_all_iff)
    then show ?thesis using TokenLearner_frame_shape[OF assms(1) _ assms(3,4)] by blast
  qed
  from all_results_shape[of "concat x" "TokenLearner_frame lrn" ?P, OF this]
  obtain ys where ys: "all_results (map (TokenLearner_frame lrn) (concat x)) = Inr ys"
    "length ys = length (concat x)" "list_all ?P ys"
    by blast
  have ps: "unpack_one ys (snd (pack_one x)) = unpack_one ys (length x, frames)"
  proof (cases x)
    case Nil
    then show ?thesis by (simp add: pack_one_def unpack_one_def)
  next
    case (Cons fs rest)
    then show ?thesis using fr by (simp add: pack_one_def)
  qed
  have "length ys = length x * frames" using ys(2) length_concat_frames[OF fr] by simp
  from unpack_one_shape[OF this ys(3)] ps ys(1)
  show ?thesis
    by (simp add: TokenLearner_forward_def pack_one_def learned_tokens_shape_def
          split: prod.splits)
qed

theorem token_learner_output_shape_witness:
  "token_learner_shapes 1 example_token_learner
   \<and> video_features 2 1 1 3 example_features
   \<and> (0::nat) < 1 \<and> (0::nat) < 3
   \<and> (\<exists>y. TokenLearner_forward example_token_learner example_features = Inr y
          \<and> learned_tokens_shape 1 2 1 2 y)"
proof -
  have a: "token_learner_shapes 1 example_token_learner"
    by (simp add: token_learner_shapes_def example_token_learner_def conv_shape_def)
  have b: "video_features 2 1 1 3 example_features"
    by (simp add: video_features_def example_features_def)
  have c: "(0::nat) < 1" and d: "(0::nat) < 3" by simp_all
  have e: "length example_features = 1" "num_output_tokens example_token_learner = 2"
    by (simp_all add: example_features_def example_token_learner_def)
  from token_learner_output_shape[OF a b c d] a b e show ?thesis by simp
qed


end
